theory Spec2Isabelle
  imports Main "HOL-Library.Word"
begin

section \<open>Solidity basics: addresses, unsigned 256-bit integers, reverts\<close>

text \<open>
  An address is a 160-bit word; \<open>address(0)\<close> is the word \<open>0\<close>.  A \<open>uint256\<close> is a
  natural number together with the checks of Solidity 0.8: an addition or a multiplication
  whose result exceeds \<open>MAX_UINT256\<close>, a subtraction below zero and a division by zero
  abort the call with a panic.  Every such check is written out where the source computes.
\<close>

type_synonym address = "160 word"

definition MAX_UINT256 :: nat where
  "MAX_UINT256 = 2 ^ 256 - 1"

datatype error =
    Revert string       \<comment> \<open>a failed \<open>require\<close> or a \<open>revert\<close>, with the source's message\<close>
  | Panic               \<comment> \<open>checked arithmetic: overflow, underflow, division by zero\<close>
  | TokenError string   \<comment> \<open>a revert raised inside the staking token\<close>
  | NoContract          \<comment> \<open>a call to an address that holds no such contract\<close>

section \<open>LPERC20: the share ledger of one pool\<close>

text \<open>
  Contract \<open>LPERC20\<close>.  The fields \<open>name\<close>, \<open>symbol\<close> and \<open>decimals\<close> are metadata that
  no function reads; they are left out.  Every function takes the caller (\<open>msg.sender\<close>)
  as its first argument.  Events are not modelled.
\<close>

record LPERC20 =
  totalSupply :: nat
  balances :: "address \<Rightarrow> nat"
  allowances :: "address \<Rightarrow> address \<Rightarrow> nat"
  owner :: address

definition LPERC20_constructor :: "address \<Rightarrow> LPERC20" where
  "LPERC20_constructor ownr =
     \<lparr>totalSupply = 0, balances = (\<lambda>_. 0), allowances = (\<lambda>_ _. 0), owner = ownr\<rparr>"

definition balanceOf :: "LPERC20 \<Rightarrow> address \<Rightarrow> nat" where
  "balanceOf l account = balances l account"

definition lp_transfer_internal :: "address \<Rightarrow> address \<Rightarrow> nat \<Rightarrow> LPERC20 \<Rightarrow> error + LPERC20" where
  "lp_transfer_internal from to amt l =
     (if from = 0 then Inl (Revert ''LPERC20: transfer from the zero address'')
      else if to = 0 then Inl (Revert ''LPERC20: transfer to the zero address'')
      else if \<not> balances l from \<ge> amt then Inl (Revert ''LPERC20: transfer amount exceeds balance'')
      else
        let b1 = (balances l)(from := balances l from - amt) in
        if b1 to + amt > MAX_UINT256 then Inl Panic
        else Inr (l\<lparr>balances := b1(to := b1 to + amt)\<rparr>))"

definition lp_approve_internal :: "address \<Rightarrow> address \<Rightarrow> nat \<Rightarrow> LPERC20 \<Rightarrow> error + LPERC20" where
  "lp_approve_internal ownerAddr spender amt l =
     (if ownerAddr = 0 then Inl (Revert ''LPERC20: approve from the zero address'')
      else if spender = 0 then Inl (Revert ''LPERC20: approve to the zero address'')
      else Inr (l\<lparr>allowances := (allowances l)(ownerAddr := (allowances l ownerAddr)(spender := amt))\<rparr>))"

definition lp_transfer :: "address \<Rightarrow> address \<Rightarrow> nat \<Rightarrow> LPERC20 \<Rightarrow> error + LPERC20" where
  "lp_transfer sender to amt l = lp_transfer_internal sender to amt l"

definition lp_approve :: "address \<Rightarrow> address \<Rightarrow> nat \<Rightarrow> LPERC20 \<Rightarrow> error + LPERC20" where
  "lp_approve sender spender amt l = lp_approve_internal sender spender amt l"

definition lp_transferFrom :: "address \<Rightarrow> address \<Rightarrow> address \<Rightarrow> nat \<Rightarrow> LPERC20 \<Rightarrow> error + LPERC20" where
  "lp_transferFrom sender from to amt l =
     (let currentAllowance = allowances l from sender in
      if \<not> currentAllowance \<ge> amt then Inl (Revert ''LPERC20: transfer amount exceeds allowance'')
      else case lp_transfer_internal from to amt l of
             Inl e \<Rightarrow> Inl e
           | Inr l1 \<Rightarrow> lp_approve_internal from sender (currentAllowance - amt) l1)"

definition mint :: "address \<Rightarrow> address \<Rightarrow> nat \<Rightarrow> LPERC20 \<Rightarrow> error + LPERC20" where
  "mint sender to amt l =
     (if sender \<noteq> owner l then Inl (Revert ''LPERC20: caller is not the owner'')
      else if to = 0 then Inl (Revert ''LPERC20: mint to the zero address'')
      else if totalSupply l + amt > MAX_UINT256 then Inl Panic
      else if balances l to + amt > MAX_UINT256 then Inl Panic
      else Inr (l\<lparr>totalSupply := totalSupply l + amt,
                  balances := (balances l)(to := balances l to + amt)\<rparr>))"

definition burn :: "address \<Rightarrow> address \<Rightarrow> nat \<Rightarrow> LPERC20 \<Rightarrow> error + LPERC20" where
  "burn sender from amt l =
     (if sender \<noteq> owner l then Inl (Revert ''LPERC20: caller is not the owner'')
      else if from = 0 then Inl (Revert ''LPERC20: burn from the zero address'')
      else if \<not> balances l from \<ge> amt then Inl (Revert ''LPERC20: burn amount exceeds balance'')
      else if totalSupply l < amt then Inl Panic
      else Inr (l\<lparr>balances := (balances l)(from := balances l from - amt),
                  totalSupply := totalSupply l - amt\<rparr>))"

text \<open>
  A call to the ledger from outside: the caller comes first, then the arguments of the
  Solidity function.  A call that reverts leaves the storage as it was.
\<close>

datatype ledger_call =
    CallTransfer address address nat
  | CallApprove address address nat
  | CallTransferFrom address address address nat
  | CallMint address address nat
  | CallBurn address address nat

fun ledger_exec :: "LPERC20 \<Rightarrow> ledger_call \<Rightarrow> error + LPERC20" where
  "ledger_exec l (CallTransfer sender to amt) = lp_transfer sender to amt l"
| "ledger_exec l (CallApprove sender spender amt) = lp_approve sender spender amt l"
| "ledger_exec l (CallTransferFrom sender from to amt) = lp_transferFrom sender from to amt l"
| "ledger_exec l (CallMint sender to amt) = mint sender to amt l"
| "ledger_exec l (CallBurn sender from amt) = burn sender from amt l"

definition ledger_step :: "LPERC20 \<Rightarrow> ledger_call \<Rightarrow> LPERC20" where
  "ledger_step l c = (case ledger_exec l c of Inl e \<Rightarrow> l | Inr l' \<Rightarrow> l')"

fun ledger_run :: "LPERC20 \<Rightarrow> ledger_call list \<Rightarrow> LPERC20" where
  "ledger_run l [] = l"
| "ledger_run l (c # cs) = ledger_run (ledger_step l c) cs"

definition sum_balances :: "LPERC20 \<Rightarrow> nat" where
  "sum_balances l = (\<Sum>a\<in>UNIV. balances l a)"

section \<open>SimpleStakingToken: the staking token\<close>

text \<open>
  Contract \<open>SimpleStakingToken\<close> extends OpenZeppelin's \<open>ERC20\<close> (version 5), an
  imported library that is not among the sources; the inherited functions \<open>_mint\<close>,
  \<open>_transfer\<close>, \<open>_spendAllowance\<close> and \<open>approve\<close> follow the library's published
  behaviour: balances are updated unchecked (written out as \<open>mod 2 ^ 256\<close>), the total
  supply is checked, an allowance of \<open>MAX_UINT256\<close> is never spent.  The overrides
  \<open>transfer\<close> and \<open>transferFrom\<close> first mint \<open>INITIAL_TOKEN_AMOUNT\<close> to a caller
  that has not received it yet.
\<close>

record SimpleStakingToken =
  tk_totalSupply :: nat
  tk_balances :: "address \<Rightarrow> nat"
  tk_allowances :: "address \<Rightarrow> address \<Rightarrow> nat"
  hasReceivedInitialTokens :: "address \<Rightarrow> bool"
  tk_owner :: address

definition INITIAL_TOKEN_AMOUNT :: nat where
  "INITIAL_TOKEN_AMOUNT = 10000 * 10 ^ 18"

definition tk_mint_internal :: "address \<Rightarrow> nat \<Rightarrow> SimpleStakingToken \<Rightarrow> error + SimpleStakingToken" where
  "tk_mint_internal account v t =
     (if account = 0 then Inl (TokenError ''ERC20InvalidReceiver'')
      else if tk_totalSupply t + v > MAX_UINT256 then Inl Panic
      else Inr (t\<lparr>tk_totalSupply := tk_totalSupply t + v,
                  tk_balances := (tk_balances t)(account := (tk_balances t account + v) mod 2 ^ 256)\<rparr>))"

definition mintInitialTokens :: "address \<Rightarrow> SimpleStakingToken \<Rightarrow> error + SimpleStakingToken" where
  "mintInitialTokens usr t =
     (if \<not> hasReceivedInitialTokens t usr
      then tk_mint_internal usr INITIAL_TOKEN_AMOUNT
             (t\<lparr>hasReceivedInitialTokens := (hasReceivedInitialTokens t)(usr := True)\<rparr>)
      else Inr t)"

definition tk_transfer_internal :: "address \<Rightarrow> address \<Rightarrow> nat \<Rightarrow> SimpleStakingToken \<Rightarrow> error + SimpleStakingToken" where
  "tk_transfer_internal from to v t =
     (if from = 0 then Inl (TokenError ''ERC20InvalidSender'')
      else if to = 0 then Inl (TokenError ''ERC20InvalidReceiver'')
      else if tk_balances t from < v then Inl (TokenError ''ERC20InsufficientBalance'')
      else
        let b1 = (tk_balances t)(from := tk_balances t from - v) in
        Inr (t\<lparr>tk_balances := b1(to := (b1 to + v) mod 2 ^ 256)\<rparr>))"

definition tk_spendAllowance :: "address \<Rightarrow> address \<Rightarrow> nat \<Rightarrow> SimpleStakingToken \<Rightarrow> error + SimpleStakingToken" where
  "tk_spendAllowance ownr spender v t =
     (let currentAllowance = tk_allowances t ownr spender in
      if currentAllowance < MAX_UINT256 then
        if currentAllowance < v then Inl (TokenError ''ERC20InsufficientAllowance'')
        else if ownr = 0 then Inl (TokenError ''ERC20InvalidApprover'')
        else if spender = 0 then Inl (TokenError ''ERC20InvalidSpender'')
        else Inr (t\<lparr>tk_allowances := (tk_allowances t)(ownr := (tk_allowances t ownr)(spender := currentAllowance - v))\<rparr>)
      else Inr t)"

definition tk_approve :: "address \<Rightarrow> address \<Rightarrow> nat \<Rightarrow> SimpleStakingToken \<Rightarrow> error + SimpleStakingToken" where
  "tk_approve sender spender v t =
     (if sender = 0 then Inl (TokenError ''ERC20InvalidApprover'')
      else if spender = 0 then Inl (TokenError ''ERC20InvalidSpender'')
      else Inr (t\<lparr>tk_allowances := (tk_allowances t)(sender := (tk_allowances t sender)(spender := v))\<rparr>))"

definition tk_transfer :: "address \<Rightarrow> address \<Rightarrow> nat \<Rightarrow> SimpleStakingToken \<Rightarrow> error + SimpleStakingToken" where
  "tk_transfer sender recipient amt t =
     (case mintInitialTokens sender t of
        Inl e \<Rightarrow> Inl e
      | Inr t1 \<Rightarrow> tk_transfer_internal sender recipient amt t1)"

definition tk_transferFrom :: "address \<Rightarrow> address \<Rightarrow> address \<Rightarrow> nat \<Rightarrow> SimpleStakingToken \<Rightarrow> error + SimpleStakingToken" where
  "tk_transferFrom caller sender recipient amt t =
     (case mintInitialTokens caller t of
        Inl e \<Rightarrow> Inl e
      | Inr t1 \<Rightarrow>
          (case tk_spendAllowance sender caller amt t1 of
             Inl e \<Rightarrow> Inl e
           | Inr t2 \<Rightarrow> tk_transfer_internal sender recipient amt t2))"

definition tk_mint :: "address \<Rightarrow> address \<Rightarrow> nat \<Rightarrow> SimpleStakingToken \<Rightarrow> error + SimpleStakingToken" where
  "tk_mint sender to amt t =
     (if sender \<noteq> tk_owner t then Inl (TokenError ''OwnableUnauthorizedAccount'')
      else tk_mint_internal to amt t)"

section \<open>LiquidityPool: the state of a pool and of the whole system\<close>

record Stake =
  stakedAmount :: nat
  collateralAmount :: nat
  lpTokensMinted :: nat
  stakeTimestamp :: nat

record Debt =
  user :: address
  merchantAddress :: address
  amount :: nat
  timestamp :: nat
  isRepaid :: bool

datatype PoolStatusContract = ACTIVE | PAUSED | INACTIVE

record LiquidityPool =
  factoryOwner :: address
  regionName :: string
  lpToken :: LPERC20
  totalLiquidityStaked :: nat
  status :: PoolStatusContract
  rewardsPot :: nat
  apyBasisPoints :: nat
  totalDebt :: nat
  stakers :: "address \<Rightarrow> Stake"
  userDebts :: "address \<Rightarrow> Debt list"
  debtRelatedUnstakeTimelock :: "address \<Rightarrow> nat"

definition COLLATERAL_PERCENTAGE_BP :: nat where
  "COLLATERAL_PERCENTAGE_BP = 2000"

definition UNSTAKE_TIME_LOCK_DURATION :: nat where
  "UNSTAKE_TIME_LOCK_DURATION = 24 * 3600"

definition BASIS_POINTS :: nat where
  "BASIS_POINTS = 10000"

text \<open>
  The system: the factory's list \<open>pools\<close> (what \<open>getPools()\<close> returns, in the order of
  creation) with its owner and region table, the deployed \<open>LiquidityPool\<close> contracts by
  address, the one staking token they all share, and the time of the current block.  A
  function of a pool takes the pool's own address (\<open>address(this)\<close>) and the caller
  (\<open>msg.sender\<close>) first, and the system last; it returns the new system, or the error with
  which the call reverts.  An address that holds no pool holds no code: a call to it fails
  with \<open>NoContract\<close>, and it does so in the caller (the check that the target has
  code, or the decoding of the missing return data, is the caller's), so that a
  \<open>try\<close> around the call does not catch it.  A \<open>try\<close> catches every error raised
  inside the pool that is called.
\<close>

record world =
  factory_address :: address
  factory_owner :: address
  pools :: "address list"
  regionExists :: "string \<Rightarrow> bool"
  poolToRegion :: "address \<Rightarrow> string"
  regionToPool :: "string \<Rightarrow> address"
  liquidityPools :: "address \<Rightarrow> LiquidityPool option"
  stakingToken :: SimpleStakingToken
  block_timestamp :: nat

definition set_pool :: "address \<Rightarrow> LiquidityPool \<Rightarrow> world \<Rightarrow> world" where
  "set_pool a p w = w\<lparr>liquidityPools := (liquidityPools w)(a \<mapsto> p)\<rparr>"

definition LiquidityPool_constructor :: "string \<Rightarrow> address \<Rightarrow> address \<Rightarrow> LiquidityPool" where
  "LiquidityPool_constructor region fOwner self =
     \<lparr>factoryOwner = fOwner, regionName = region, lpToken = LPERC20_constructor self,
      totalLiquidityStaked = 0, status = ACTIVE, rewardsPot = 0, apyBasisPoints = 500,
      totalDebt = 0,
      stakers = (\<lambda>_. \<lparr>stakedAmount = 0, collateralAmount = 0, lpTokensMinted = 0, stakeTimestamp = 0\<rparr>),
      userDebts = (\<lambda>_. []), debtRelatedUnstakeTimelock = (\<lambda>_. 0)\<rparr>"

subsection \<open>Views\<close>

text \<open>
  The loop shared by \<open>getCollateralAvailable\<close> and \<open>getActiveDebtAmount\<close>: the
  amounts of the debts that are not repaid are added up, each addition checked.
\<close>

fun activeDebtLoop :: "Debt list \<Rightarrow> nat \<Rightarrow> error + nat" where
  "activeDebtLoop [] acc = Inr acc"
| "activeDebtLoop (d # ds) acc =
     (if \<not> isRepaid d then
        (if acc + amount d > MAX_UINT256 then Inl Panic else activeDebtLoop ds (acc + amount d))
      else activeDebtLoop ds acc)"

definition getStake :: "address \<Rightarrow> address \<Rightarrow> world \<Rightarrow> error + Stake" where
  "getStake self usr w =
     (case liquidityPools w self of None \<Rightarrow> Inl NoContract | Some p \<Rightarrow> Inr (stakers p usr))"

definition getStakedAmount :: "address \<Rightarrow> address \<Rightarrow> world \<Rightarrow> error + nat" where
  "getStakedAmount self usr w =
     (case liquidityPools w self of None \<Rightarrow> Inl NoContract | Some p \<Rightarrow> Inr (stakedAmount (stakers p usr)))"

definition totalLiquidity :: "address \<Rightarrow> world \<Rightarrow> error + nat" where
  "totalLiquidity self w =
     (case liquidityPools w self of None \<Rightarrow> Inl NoContract | Some p \<Rightarrow> Inr (totalLiquidityStaked p))"

definition getCollateralAvailable :: "address \<Rightarrow> address \<Rightarrow> world \<Rightarrow> error + nat" where
  "getCollateralAvailable self usr w =
     (case liquidityPools w self of
        None \<Rightarrow> Inl NoContract
      | Some p \<Rightarrow>
          (case activeDebtLoop (userDebts p usr) 0 of
             Inl e \<Rightarrow> Inl e
           | Inr totalDebt' \<Rightarrow>
               Inr (if collateralAmount (stakers p usr) > totalDebt'
                    then collateralAmount (stakers p usr) - totalDebt' else 0)))"

definition getActiveDebtAmount :: "address \<Rightarrow> address \<Rightarrow> world \<Rightarrow> error + nat" where
  "getActiveDebtAmount self usr w =
     (case liquidityPools w self of
        None \<Rightarrow> Inl NoContract
      | Some p \<Rightarrow> activeDebtLoop (userDebts p usr) 0)"

fun totalCollateralLoop :: "address \<Rightarrow> address \<Rightarrow> address list \<Rightarrow> nat \<Rightarrow> world \<Rightarrow> error + nat" where
  "totalCollateralLoop self usr [] totalCollateral w = Inr totalCollateral"
| "totalCollateralLoop self usr (poolAddress # allPools) totalCollateral w =
     (if poolAddress \<noteq> self then
        if liquidityPools w poolAddress = None then Inl NoContract else
        (case getStake poolAddress usr w of
           Inl e \<Rightarrow> totalCollateralLoop self usr allPools totalCollateral w
         | Inr userStakeInPool \<Rightarrow>
             if totalCollateral + collateralAmount userStakeInPool > MAX_UINT256 then Inl Panic
             else totalCollateralLoop self usr allPools
                    (totalCollateral + collateralAmount userStakeInPool) w)
      else totalCollateralLoop self usr allPools totalCollateral w)"

definition getTotalCollateralAcrossPools :: "address \<Rightarrow> address \<Rightarrow> world \<Rightarrow> error + nat" where
  "getTotalCollateralAcrossPools self usr w =
     (case liquidityPools w self of
        None \<Rightarrow> Inl NoContract
      | Some p \<Rightarrow> totalCollateralLoop self usr (pools w) (collateralAmount (stakers p usr)) w)"

subsection \<open>Administration\<close>

definition toggleStatus :: "address \<Rightarrow> address \<Rightarrow> world \<Rightarrow> error + world" where
  "toggleStatus self sender w =
     (case liquidityPools w self of
        None \<Rightarrow> Inl NoContract
      | Some p \<Rightarrow>
          if sender \<noteq> factoryOwner p then Inl (Revert ''Not factory owner'')
          else if status p = ACTIVE then Inr (set_pool self (p\<lparr>status := PAUSED\<rparr>) w)
          else if status p = PAUSED then Inr (set_pool self (p\<lparr>status := ACTIVE\<rparr>) w)
          else Inr w)"

definition setStatus :: "address \<Rightarrow> address \<Rightarrow> PoolStatusContract \<Rightarrow> world \<Rightarrow> error + world" where
  "setStatus self sender newStatus w =
     (case liquidityPools w self of
        None \<Rightarrow> Inl NoContract
      | Some p \<Rightarrow>
          if sender \<noteq> factoryOwner p then Inl (Revert ''Not factory owner'')
          else Inr (set_pool self (p\<lparr>status := newStatus\<rparr>) w))"

definition setApy :: "address \<Rightarrow> address \<Rightarrow> nat \<Rightarrow> world \<Rightarrow> error + world" where
  "setApy self sender newApyBasisPoints w =
     (case liquidityPools w self of
        None \<Rightarrow> Inl NoContract
      | Some p \<Rightarrow>
          if sender \<noteq> factoryOwner p then Inl (Revert ''Not factory owner'')
          else if \<not> newApyBasisPoints \<le> 5000 then Inl (Revert ''APY exceeds 50%'')
          else Inr (set_pool self (p\<lparr>apyBasisPoints := newApyBasisPoints\<rparr>) w))"

definition addRewardsToPot :: "address \<Rightarrow> address \<Rightarrow> nat \<Rightarrow> world \<Rightarrow> error + world" where
  "addRewardsToPot self sender amt w =
     (case liquidityPools w self of
        None \<Rightarrow> Inl NoContract
      | Some p \<Rightarrow>
          if sender \<noteq> factoryOwner p then Inl (Revert ''Not factory owner'')
          else if \<not> amt > 0 then Inl (Revert ''Amount must be > 0'')
          else if rewardsPot p + amt > MAX_UINT256 then Inl Panic
          else Inr (set_pool self (p\<lparr>rewardsPot := rewardsPot p + amt\<rparr>) w))"

definition distributeRewards :: "address \<Rightarrow> address \<Rightarrow> world \<Rightarrow> error + world" where
  "distributeRewards self sender w =
     (case liquidityPools w self of
        None \<Rightarrow> Inl NoContract
      | Some p \<Rightarrow>
          if sender \<noteq> factoryOwner p then Inl (Revert ''Not factory owner'')
          else if status p \<noteq> ACTIVE then Inl (Revert ''Pool not active'')
          else if \<not> rewardsPot p > 0 then Inl (Revert ''No rewards to distribute'')
          else if \<not> totalSupply (lpToken p) > 0 then Inl (Revert ''No LP tokens to distribute'')
          else Inr (set_pool self (p\<lparr>rewardsPot := 0\<rparr>) w))"

definition emergencyWithdraw :: "address \<Rightarrow> address \<Rightarrow> world \<Rightarrow> error + world" where
  "emergencyWithdraw self sender w =
     (case liquidityPools w self of
        None \<Rightarrow> Inl NoContract
      | Some p \<Rightarrow>
          if sender \<noteq> factoryOwner p then Inl (Revert ''Not factory owner'')
          else if status p \<noteq> INACTIVE then Inl (Revert ''Pool must be inactive'')
          else
            let balance = tk_balances (stakingToken w) self in
            if balance > 0 then
              (case tk_transfer self (factoryOwner p) balance (stakingToken w) of
                 Inl e \<Rightarrow> Inl e
               | Inr tk \<Rightarrow> Inr (w\<lparr>stakingToken := tk\<rparr>))
            else Inr w)"

subsection \<open>Staking and unstaking\<close>

definition stake :: "address \<Rightarrow> address \<Rightarrow> nat \<Rightarrow> world \<Rightarrow> error + world" where
  "stake self sender amt w =
     (case liquidityPools w self of
        None \<Rightarrow> Inl NoContract
      | Some p \<Rightarrow>
          if status p \<noteq> ACTIVE then Inl (Revert ''Pool not active'')
          else if \<not> amt > 0 then Inl (Revert ''Amount must be > 0'')
          else
            (case tk_transferFrom self sender self amt (stakingToken w) of
               Inl e \<Rightarrow> Inl e
             | Inr tk \<Rightarrow>
                 if amt * COLLATERAL_PERCENTAGE_BP > MAX_UINT256 then Inl Panic
                 else
                   let collateralAmount' = (amt * COLLATERAL_PERCENTAGE_BP) div BASIS_POINTS in
                   (case (if totalSupply (lpToken p) = 0 then Inr amt
                          else if amt * totalSupply (lpToken p) > MAX_UINT256 then Inl Panic
                          else if totalLiquidityStaked p = 0 then Inl Panic
                          else Inr ((amt * totalSupply (lpToken p)) div totalLiquidityStaked p)) of
                      Inl e \<Rightarrow> Inl e
                    | Inr lpTokensToMint \<Rightarrow>
                        let userStake = stakers p sender in
                        if stakedAmount userStake + amt > MAX_UINT256 then Inl Panic
                        else if collateralAmount userStake + collateralAmount' > MAX_UINT256 then Inl Panic
                        else if lpTokensMinted userStake + lpTokensToMint > MAX_UINT256 then Inl Panic
                        else if totalLiquidityStaked p + amt > MAX_UINT256 then Inl Panic
                        else
                          (case mint self sender lpTokensToMint (lpToken p) of
                             Inl e \<Rightarrow> Inl e
                           | Inr lp \<Rightarrow>
                               Inr (set_pool self
                                 (p\<lparr>stakers := (stakers p)(sender :=
                                        \<lparr>stakedAmount = stakedAmount userStake + amt,
                                         collateralAmount = collateralAmount userStake + collateralAmount',
                                         lpTokensMinted = lpTokensMinted userStake + lpTokensToMint,
                                         stakeTimestamp = block_timestamp w\<rparr>),
                                    totalLiquidityStaked := totalLiquidityStaked p + amt,
                                    lpToken := lp\<rparr>)
                                 (w\<lparr>stakingToken := tk\<rparr>))))))"

definition unstake :: "address \<Rightarrow> address \<Rightarrow> nat \<Rightarrow> world \<Rightarrow> error + world" where
  "unstake self sender lpTokenAmount w =
     (case liquidityPools w self of
        None \<Rightarrow> Inl NoContract
      | Some p \<Rightarrow>
          let userStake = stakers p sender in
          if status p \<noteq> ACTIVE then Inl (Revert ''Pool not active'')
          else if \<not> lpTokenAmount > 0 then Inl (Revert ''LP token amount must be > 0'')
          else if \<not> lpTokensMinted userStake \<ge> lpTokenAmount then Inl (Revert ''Insufficient LP tokens'')
          else if lpTokenAmount * BASIS_POINTS > MAX_UINT256 then Inl Panic
          else if lpTokensMinted userStake = 0 then Inl Panic
          else
            let proportionBasisPoints = (lpTokenAmount * BASIS_POINTS) div lpTokensMinted userStake in
            if stakedAmount userStake * proportionBasisPoints > MAX_UINT256 then Inl Panic
            else
              let stakedAmountToReturn = (stakedAmount userStake * proportionBasisPoints) div BASIS_POINTS in
              if collateralAmount userStake * proportionBasisPoints > MAX_UINT256 then Inl Panic
              else
                let collateralToReduce = (collateralAmount userStake * proportionBasisPoints) div BASIS_POINTS in
                if collateralAmount userStake < collateralToReduce then Inl Panic
                else
                  let remainingCollateral = collateralAmount userStake - collateralToReduce in
                  (case getActiveDebtAmount self sender w of
                     Inl e \<Rightarrow> Inl e
                   | Inr activeDebt \<Rightarrow>
                       if \<not> remainingCollateral \<ge> activeDebt then Inl (Revert ''Insufficient collateral'')
                       else if stakedAmount userStake < stakedAmountToReturn then Inl Panic
                       else if totalLiquidityStaked p < stakedAmountToReturn then Inl Panic
                       else
                         (case burn self sender lpTokenAmount (lpToken p) of
                            Inl e \<Rightarrow> Inl e
                          | Inr lp \<Rightarrow>
                              (case tk_transfer self sender stakedAmountToReturn (stakingToken w) of
                                 Inl e \<Rightarrow> Inl e
                               | Inr tk \<Rightarrow>
                                   Inr (set_pool self
                                     (p\<lparr>stakers := (stakers p)(sender :=
                                            userStake\<lparr>stakedAmount := stakedAmount userStake - stakedAmountToReturn,
                                                      collateralAmount := collateralAmount userStake - collateralToReduce,
                                                      lpTokensMinted := lpTokensMinted userStake - lpTokenAmount\<rparr>),
                                        totalLiquidityStaked := totalLiquidityStaked p - stakedAmountToReturn,
                                        lpToken := lp\<rparr>)
                                     (w\<lparr>stakingToken := tk\<rparr>))))))"

subsection \<open>The cross-pool transfer protocol\<close>

text \<open>
  The loops that set \<open>isValidPool\<close>: the one of \<open>receiveLiquidity\<close> looks for the
  caller, the one of \<open>transferLiquidityToPool\<close> and
  \<open>contributeLiquidityForPayment\<close> for the caller or the target.
\<close>

fun isValidPool_caller :: "address list \<Rightarrow> address \<Rightarrow> bool" where
  "isValidPool_caller [] sender = False"
| "isValidPool_caller (a # allPools) sender =
     (if a = sender then True else isValidPool_caller allPools sender)"

fun isValidPool_caller_or_target :: "address list \<Rightarrow> address \<Rightarrow> address \<Rightarrow> bool" where
  "isValidPool_caller_or_target [] sender targetPool = False"
| "isValidPool_caller_or_target (a # allPools) sender targetPool =
     (if a = sender \<or> a = targetPool then True
      else isValidPool_caller_or_target allPools sender targetPool)"

definition receiveLiquidity :: "address \<Rightarrow> address \<Rightarrow> nat \<Rightarrow> world \<Rightarrow> error + world" where
  "receiveLiquidity self sender amt w =
     (case liquidityPools w self of
        None \<Rightarrow> Inl NoContract
      | Some p \<Rightarrow>
          if sender = 0 then Inl (Revert ''Invalid caller'')
          else if \<not> isValidPool_caller (pools w) sender then Inl (Revert ''Unauthorized caller'')
          else if totalLiquidityStaked p + amt > MAX_UINT256 then Inl Panic
          else Inr (set_pool self (p\<lparr>totalLiquidityStaked := totalLiquidityStaked p + amt\<rparr>) w))"

definition transferLiquidityToPool :: "address \<Rightarrow> address \<Rightarrow> address \<Rightarrow> address \<Rightarrow> nat \<Rightarrow> world \<Rightarrow> error + world" where
  "transferLiquidityToPool self sender targetPool usr amt w =
     (case liquidityPools w self of
        None \<Rightarrow> Inl NoContract
      | Some p \<Rightarrow>
          if sender = 0 then Inl (Revert ''Invalid caller'')
          else if \<not> amt > 0 then Inl (Revert ''Amount must be > 0'')
          else if \<not> totalLiquidityStaked p \<ge> amt then Inl (Revert ''Insufficient liquidity'')
          else if \<not> isValidPool_caller_or_target (pools w) sender targetPool
            then Inl (Revert ''Unauthorized transfer'')
          else
            (case tk_transfer self targetPool amt (stakingToken w) of
               Inl e \<Rightarrow> Inl e
             | Inr tk \<Rightarrow>
                 receiveLiquidity targetPool self amt
                   (set_pool self (p\<lparr>totalLiquidityStaked := totalLiquidityStaked p - amt\<rparr>)
                      (w\<lparr>stakingToken := tk\<rparr>))))"

definition contributeLiquidityForPayment :: "address \<Rightarrow> address \<Rightarrow> address \<Rightarrow> address \<Rightarrow> nat \<Rightarrow> world \<Rightarrow> error + world" where
  "contributeLiquidityForPayment self sender targetPool usr amt w =
     (case liquidityPools w self of
        None \<Rightarrow> Inl NoContract
      | Some p \<Rightarrow>
          if sender = 0 then Inl (Revert ''Invalid caller'')
          else if \<not> amt > 0 then Inl (Revert ''Amount must be > 0'')
          else if \<not> totalLiquidityStaked p \<ge> amt then Inl (Revert ''Insufficient liquidity'')
          else if stakedAmount (stakers p usr) * COLLATERAL_PERCENTAGE_BP > MAX_UINT256 then Inl Panic
          else
            let userCollateral = (stakedAmount (stakers p usr) * COLLATERAL_PERCENTAGE_BP) div BASIS_POINTS in
            if \<not> userCollateral \<ge> amt then Inl (Revert ''Insufficient collateral'')
            else if \<not> isValidPool_caller_or_target (pools w) sender targetPool
              then Inl (Revert ''Unauthorized contribution'')
            else
              (case tk_transfer self targetPool amt (stakingToken w) of
                 Inl e \<Rightarrow> Inl e
               | Inr tk \<Rightarrow>
                   receiveLiquidity targetPool self amt
                     (set_pool self (p\<lparr>totalLiquidityStaked := totalLiquidityStaked p - amt\<rparr>)
                        (w\<lparr>stakingToken := tk\<rparr>))))"

subsection \<open>The fallback payment\<close>

text \<open>
  The loop of \<open>redistributeFundsFromPools\<close> (phase 1).  A \<open>try\<close> whose call fails
  goes on with the next pool, on the system as it was before the call; \<open>break\<close> returns
  what has been gathered.
\<close>

fun redistributeLoop :: "address \<Rightarrow> address \<Rightarrow> address list \<Rightarrow> nat \<Rightarrow> nat \<Rightarrow> world \<Rightarrow> error + nat \<times> world" where
  "redistributeLoop self usr [] stillNeeded redistributedAmount w = Inr (redistributedAmount, w)"
| "redistributeLoop self usr (poolAddress # allPools) stillNeeded redistributedAmount w =
     (if stillNeeded = 0 then Inr (redistributedAmount, w)
      else if poolAddress = self then redistributeLoop self usr allPools stillNeeded redistributedAmount w
      else if liquidityPools w poolAddress = None then Inl NoContract
      else
        (case getCollateralAvailable poolAddress usr w of
           Inl e \<Rightarrow> redistributeLoop self usr allPools stillNeeded redistributedAmount w
         | Inr poolCollateral \<Rightarrow>
             (case totalLiquidity poolAddress w of
                Inl e \<Rightarrow> redistributeLoop self usr allPools stillNeeded redistributedAmount w
              | Inr poolLiquidity \<Rightarrow>
                  let canTakeFromPool = (if poolCollateral > stillNeeded then stillNeeded else poolCollateral) in
                  if poolLiquidity \<ge> canTakeFromPool \<and> canTakeFromPool > 0 then
                    (case transferLiquidityToPool poolAddress self self usr canTakeFromPool w of
                       Inl e \<Rightarrow> redistributeLoop self usr allPools stillNeeded redistributedAmount w
                     | Inr w' \<Rightarrow>
                         if redistributedAmount + canTakeFromPool > MAX_UINT256 then Inl Panic
                         else if stillNeeded < canTakeFromPool then Inl Panic
                         else redistributeLoop self usr allPools (stillNeeded - canTakeFromPool)
                                (redistributedAmount + canTakeFromPool) w')
                  else redistributeLoop self usr allPools stillNeeded redistributedAmount w)))"

definition redistributeFundsFromPools :: "address \<Rightarrow> address \<Rightarrow> nat \<Rightarrow> nat \<Rightarrow> world \<Rightarrow> error + nat \<times> world" where
  "redistributeFundsFromPools self usr requiredAmount currentPoolAvailable w =
     (if requiredAmount < currentPoolAvailable then Inl Panic
      else redistributeLoop self usr (pools w) (requiredAmount - currentPoolAvailable)
             currentPoolAvailable w)"

text \<open>The loop of \<open>addLiquidityFromNewPools\<close> (phase 2).\<close>

fun addLiquidityLoop :: "address \<Rightarrow> address \<Rightarrow> address list \<Rightarrow> nat \<Rightarrow> nat \<Rightarrow> world \<Rightarrow> error + nat \<times> world" where
  "addLiquidityLoop self usr [] stillNeeded totalAvailable w = Inr (totalAvailable, w)"
| "addLiquidityLoop self usr (poolAddress # allPools) stillNeeded totalAvailable w =
     (if stillNeeded = 0 then Inr (totalAvailable, w)
      else if poolAddress = self then addLiquidityLoop self usr allPools stillNeeded totalAvailable w
      else if liquidityPools w poolAddress = None then Inl NoContract
      else
        (case getStakedAmount poolAddress usr w of
           Inl e \<Rightarrow> addLiquidityLoop self usr allPools stillNeeded totalAvailable w
         | Inr userStakeInPool \<Rightarrow>
             if userStakeInPool * COLLATERAL_PERCENTAGE_BP > MAX_UINT256 then Inl Panic
             else
               let userCollateralInPool = (userStakeInPool * COLLATERAL_PERCENTAGE_BP) div BASIS_POINTS;
                   availableFromPool = (if userCollateralInPool > stillNeeded then stillNeeded
                                        else userCollateralInPool) in
               (case totalLiquidity poolAddress w of
                  Inl e \<Rightarrow> addLiquidityLoop self usr allPools stillNeeded totalAvailable w
                | Inr poolLiquidity \<Rightarrow>
                    if availableFromPool > 0 \<and> poolLiquidity \<ge> availableFromPool then
                      (case contributeLiquidityForPayment poolAddress self self usr availableFromPool w of
                         Inl e \<Rightarrow> addLiquidityLoop self usr allPools stillNeeded totalAvailable w
                       | Inr w' \<Rightarrow>
                           if totalAvailable + availableFromPool > MAX_UINT256 then Inl Panic
                           else if stillNeeded < availableFromPool then Inl Panic
                           else addLiquidityLoop self usr allPools (stillNeeded - availableFromPool)
                                  (totalAvailable + availableFromPool) w')
                    else addLiquidityLoop self usr allPools stillNeeded totalAvailable w)))"

definition addLiquidityFromNewPools :: "address \<Rightarrow> address \<Rightarrow> nat \<Rightarrow> nat \<Rightarrow> world \<Rightarrow> error + nat \<times> world" where
  "addLiquidityFromNewPools self usr requiredAmount currentAvailable w =
     (if requiredAmount < currentAvailable then Inl Panic
      else addLiquidityLoop self usr (pools w) (requiredAmount - currentAvailable) currentAvailable w)"

definition executeOriginalFallbackPay :: "address \<Rightarrow> address \<Rightarrow> address \<Rightarrow> nat \<Rightarrow> world \<Rightarrow> error + world" where
  "executeOriginalFallbackPay self sender merchant amt w =
     (case liquidityPools w self of
        None \<Rightarrow> Inl NoContract
      | Some p \<Rightarrow>
          if \<not> totalLiquidityStaked p \<ge> amt then Inl (Revert ''Insufficient pool liquidity'')
          else if totalSupply (lpToken p) = 0 then Inl (Revert ''No LP tokens to burn'')
          else if amt * totalSupply (lpToken p) > MAX_UINT256 then Inl Panic
          else if totalLiquidityStaked p = 0 then Inl Panic
          else
            let lpTokensToBurn = (amt * totalSupply (lpToken p)) div totalLiquidityStaked p;
                userStake = stakers p sender in
            if \<not> balanceOf (lpToken p) sender \<ge> lpTokensToBurn then Inl (Revert ''Insufficient LP tokens'')
            else if \<not> lpTokensMinted userStake \<ge> lpTokensToBurn then Inl (Revert ''Insufficient minted LP tokens'')
            else if stakedAmount userStake < amt then Inl Panic
            else if (stakedAmount userStake - amt) * COLLATERAL_PERCENTAGE_BP > MAX_UINT256 then Inl Panic
            else
              (case burn self sender lpTokensToBurn (lpToken p) of
                 Inl e \<Rightarrow> Inl e
               | Inr lp \<Rightarrow>
                   if totalDebt p + amt > MAX_UINT256 then Inl Panic
                   else if block_timestamp w + UNSTAKE_TIME_LOCK_DURATION > MAX_UINT256 then Inl Panic
                   else
                     let newTimelock = block_timestamp w + UNSTAKE_TIME_LOCK_DURATION in
                     (case tk_transfer self merchant amt (stakingToken w) of
                        Inl e \<Rightarrow> Inl e
                      | Inr tk \<Rightarrow>
                          Inr (set_pool self
                            (p\<lparr>stakers := (stakers p)(sender :=
                                   userStake\<lparr>lpTokensMinted := lpTokensMinted userStake - lpTokensToBurn,
                                             stakedAmount := stakedAmount userStake - amt,
                                             collateralAmount :=
                                               ((stakedAmount userStake - amt) * COLLATERAL_PERCENTAGE_BP) div BASIS_POINTS\<rparr>),
                               totalLiquidityStaked := totalLiquidityStaked p - amt,
                               lpToken := lp,
                               userDebts := (userDebts p)(sender := userDebts p sender @
                                   [\<lparr>user = sender, merchantAddress = merchant, amount = amt,
                                     timestamp = block_timestamp w, isRepaid = False\<rparr>]),
                               totalDebt := totalDebt p + amt,
                               debtRelatedUnstakeTimelock :=
                                 (if newTimelock > debtRelatedUnstakeTimelock p sender
                                  then (debtRelatedUnstakeTimelock p)(sender := newTimelock)
                                  else debtRelatedUnstakeTimelock p)\<rparr>)
                            (w\<lparr>stakingToken := tk\<rparr>)))))"

text \<open>
  The rest of \<open>fallbackPay\<close> once phase 1 is over or has been skipped: phase 2 when what
  is available is still short, the two final checks, and the payment.
\<close>

definition fallbackPay_settle :: "address \<Rightarrow> address \<Rightarrow> address \<Rightarrow> nat \<Rightarrow> nat \<Rightarrow> nat \<Rightarrow> world \<Rightarrow> error + world" where
  "fallbackPay_settle self sender merchant amt totalCollateralAcrossPools availableAfterRedistribution w =
     (case (if availableAfterRedistribution < amt
            then addLiquidityFromNewPools self sender amt availableAfterRedistribution w
            else Inr (availableAfterRedistribution, w)) of
        Inl e \<Rightarrow> Inl e
      | Inr (finalAvailableAmount, w2) \<Rightarrow>
          if \<not> finalAvailableAmount \<ge> amt then Inl (Revert ''Insufficient liquidity'')
          else if \<not> amt \<le> totalCollateralAcrossPools then Inl (Revert ''Exceeds collateral limit'')
          else executeOriginalFallbackPay self sender merchant amt w2)"

definition fallbackPay :: "address \<Rightarrow> address \<Rightarrow> address \<Rightarrow> nat \<Rightarrow> world \<Rightarrow> error + world" where
  "fallbackPay self sender merchant amt w =
     (case liquidityPools w self of
        None \<Rightarrow> Inl NoContract
      | Some p \<Rightarrow>
          if status p \<noteq> ACTIVE then Inl (Revert ''Pool not active'')
          else if \<not> amt > 0 then Inl (Revert ''Amount must be > 0'')
          else if merchant = 0 then Inl (Revert ''Invalid merchant address'')
          else
            (case getTotalCollateralAcrossPools self sender w of
               Inl e \<Rightarrow> Inl e
             | Inr totalCollateralAcrossPools \<Rightarrow>
                 (case getCollateralAvailable self sender w of
                    Inl e \<Rightarrow> Inl e
                  | Inr currentPoolCollateral \<Rightarrow>
                      let currentPoolLiquidity = totalLiquidityStaked p in
                      if currentPoolCollateral \<ge> amt \<and> currentPoolLiquidity \<ge> amt
                      then executeOriginalFallbackPay self sender merchant amt w
                      else
                        (case (if currentPoolLiquidity < amt
                               then redistributeFundsFromPools self sender amt currentPoolCollateral w
                               else Inr (currentPoolCollateral, w)) of
                           Inl e \<Rightarrow> Inl e
                         | Inr (availableAfterRedistribution, w1) \<Rightarrow>
                             fallbackPay_settle self sender merchant amt totalCollateralAcrossPools
                               availableAfterRedistribution w1))))"

definition repayDebt :: "address \<Rightarrow> address \<Rightarrow> nat \<Rightarrow> nat \<Rightarrow> world \<Rightarrow> error + world" where
  "repayDebt self sender debtIndex amt w =
     (case liquidityPools w self of
        None \<Rightarrow> Inl NoContract
      | Some p \<Rightarrow>
          if status p \<noteq> ACTIVE then Inl (Revert ''Pool not active'')
          else if \<not> amt > 0 then Inl (Revert ''Amount must be > 0'')
          else if \<not> debtIndex < length (userDebts p sender) then Inl (Revert ''Invalid debt index'')
          else
            let debt = userDebts p sender ! debtIndex in
            if isRepaid debt then Inl (Revert ''Debt already repaid'')
            else if \<not> amt \<le> amount debt then Inl (Revert ''Amount exceeds debt'')
            else
              (case tk_transferFrom self sender self amt (stakingToken w) of
                 Inl e \<Rightarrow> Inl e
               | Inr tk \<Rightarrow>
                   let debt' = (if amt = amount debt then debt\<lparr>isRepaid := True\<rparr>
                                else debt\<lparr>amount := amount debt - amt\<rparr>);
                       debts' = (userDebts p sender)[debtIndex := debt'] in
                   if totalDebt p < amt then Inl Panic
                   else
                     (case activeDebtLoop debts' 0 of
                        Inl e \<Rightarrow> Inl e
                      | Inr activeDebt \<Rightarrow>
                          Inr (set_pool self
                            (p\<lparr>userDebts := (userDebts p)(sender := debts'),
                               totalDebt := totalDebt p - amt,
                               debtRelatedUnstakeTimelock :=
                                 (if activeDebt = 0 then (debtRelatedUnstakeTimelock p)(sender := 0)
                                  else debtRelatedUnstakeTimelock p)\<rparr>)
                            (w\<lparr>stakingToken := tk\<rparr>)))))"

text \<open>
  What a transaction leaves behind: the system it returns, or, when it reverts, the system
  as it was before, every change made on the way (also by the calls to other pools that
  succeeded) being discarded.
\<close>

definition transact :: "(world \<Rightarrow> error + world) \<Rightarrow> world \<Rightarrow> world" where
  "transact f w = (case f w of Inl e \<Rightarrow> w | Inr w' \<Rightarrow> w')"

section \<open>PoolFactory and the calls that change the system\<close>

text \<open>
  \<open>createPool\<close> deploys a pool; the address the new contract gets is the EVM's choice
  and an argument here, required to be unused.  The factory's staking token is the one
  token of the system (\<open>setStakingToken\<close> is not modelled).  The calls the factory makes
  to a pool have the factory's address as their caller.
\<close>

definition createPool :: "address \<Rightarrow> address \<Rightarrow> string \<Rightarrow> world \<Rightarrow> error + world" where
  "createPool sender poolAddress region w =
     (if sender \<noteq> factory_owner w then Inl (Revert ''PoolFactory: caller is not the owner'')
      else if \<not> length region > 0 then Inl (Revert ''PoolFactory: region name cannot be empty'')
      else if regionExists w region then Inl (Revert ''PoolFactory: region already exists'')
      else if poolAddress = 0 \<or> liquidityPools w poolAddress \<noteq> None then Inl NoContract
      else Inr (w\<lparr>pools := pools w @ [poolAddress],
                  regionExists := (regionExists w)(region := True),
                  poolToRegion := (poolToRegion w)(poolAddress := region),
                  regionToPool := (regionToPool w)(region := poolAddress),
                  liquidityPools := (liquidityPools w)(poolAddress \<mapsto>
                     LiquidityPool_constructor region (factory_owner w) poolAddress)\<rparr>))"

definition transferOwnership :: "address \<Rightarrow> address \<Rightarrow> world \<Rightarrow> error + world" where
  "transferOwnership sender newOwner w =
     (if sender \<noteq> factory_owner w then Inl (Revert ''PoolFactory: caller is not the owner'')
      else if newOwner = 0 then Inl (Revert ''PoolFactory: new owner is the zero address'')
      else Inr (w\<lparr>factory_owner := newOwner\<rparr>))"

definition togglePoolStatus :: "address \<Rightarrow> address \<Rightarrow> world \<Rightarrow> error + world" where
  "togglePoolStatus sender poolAddress w =
     (if sender \<noteq> factory_owner w then Inl (Revert ''PoolFactory: caller is not the owner'')
      else if poolAddress = 0 then Inl (Revert ''PoolFactory: invalid pool address'')
      else if \<not> length (poolToRegion w poolAddress) > 0 then Inl (Revert ''PoolFactory: pool not found'')
      else toggleStatus poolAddress (factory_address w) w)"

definition addRewardsToPool :: "address \<Rightarrow> address \<Rightarrow> nat \<Rightarrow> world \<Rightarrow> error + world" where
  "addRewardsToPool sender poolAddress amt w =
     (if sender \<noteq> factory_owner w then Inl (Revert ''PoolFactory: caller is not the owner'')
      else if poolAddress = 0 then Inl (Revert ''PoolFactory: invalid pool address'')
      else if \<not> length (poolToRegion w poolAddress) > 0 then Inl (Revert ''PoolFactory: pool not found'')
      else if \<not> amt > 0 then Inl (Revert ''PoolFactory: amount must be greater than 0'')
      else
        (case tk_transferFrom (factory_address w) sender poolAddress amt (stakingToken w) of
           Inl e \<Rightarrow> Inl e
         | Inr tk \<Rightarrow> addRewardsToPot poolAddress (factory_address w) amt (w\<lparr>stakingToken := tk\<rparr>)))"

text \<open>
  A call to the share ledger of a pool by anyone: the ledger lives at an address of its
  own, and its owner is the pool.
\<close>

definition lpTokenCall :: "address \<Rightarrow> ledger_call \<Rightarrow> world \<Rightarrow> error + world" where
  "lpTokenCall poolAddress c w =
     (case liquidityPools w poolAddress of
        None \<Rightarrow> Inl NoContract
      | Some p \<Rightarrow>
          (case ledger_exec (lpToken p) c of
             Inl e \<Rightarrow> Inl e
           | Inr lp \<Rightarrow> Inr (set_pool poolAddress (p\<lparr>lpToken := lp\<rparr>) w)))"

text \<open>
  Every call from outside that can change a pool or the factory: the address of the
  contract called (for the factory none), the caller, the arguments.
\<close>

datatype call =
    Stake address address nat
  | Unstake address address nat
  | FallbackPay address address address nat
  | RepayDebt address address nat nat
  | ToggleStatus address address
  | SetStatus address address PoolStatusContract
  | SetApy address address nat
  | AddRewardsToPot address address nat
  | DistributeRewards address address
  | EmergencyWithdraw address address
  | TransferLiquidityToPool address address address address nat
  | ContributeLiquidityForPayment address address address address nat
  | ReceiveLiquidity address address nat
  | LpTokenCall address ledger_call
  | CreatePool address address string
  | TransferOwnership address address
  | TogglePoolStatus address address
  | AddRewardsToPool address address nat

fun exec :: "call \<Rightarrow> world \<Rightarrow> error + world" where
  "exec (Stake self sender amt) w = stake self sender amt w"
| "exec (Unstake self sender lpTokenAmount) w = unstake self sender lpTokenAmount w"
| "exec (FallbackPay self sender merchant amt) w = fallbackPay self sender merchant amt w"
| "exec (RepayDebt self sender debtIndex amt) w = repayDebt self sender debtIndex amt w"
| "exec (ToggleStatus self sender) w = toggleStatus self sender w"
| "exec (SetStatus self sender newStatus) w = setStatus self sender newStatus w"
| "exec (SetApy self sender bp) w = setApy self sender bp w"
| "exec (AddRewardsToPot self sender amt) w = addRewardsToPot self sender amt w"
| "exec (DistributeRewards self sender) w = distributeRewards self sender w"
| "exec (EmergencyWithdraw self sender) w = emergencyWithdraw self sender w"
| "exec (TransferLiquidityToPool self sender targetPool usr amt) w =
     transferLiquidityToPool self sender targetPool usr amt w"
| "exec (ContributeLiquidityForPayment self sender targetPool usr amt) w =
     contributeLiquidityForPayment self sender targetPool usr amt w"
| "exec (ReceiveLiquidity self sender amt) w = receiveLiquidity self sender amt w"
| "exec (LpTokenCall poolAddress c) w = lpTokenCall poolAddress c w"
| "exec (CreatePool sender poolAddress region) w = createPool sender poolAddress region w"
| "exec (TransferOwnership sender newOwner) w = transferOwnership sender newOwner w"
| "exec (TogglePoolStatus sender poolAddress) w = togglePoolStatus sender poolAddress w"
| "exec (AddRewardsToPool sender poolAddress amt) w = addRewardsToPool sender poolAddress amt w"

text \<open>A sequence of transactions, each leaving its result or, reverted, nothing.\<close>

fun run :: "call list \<Rightarrow> world \<Rightarrow> world" where
  "run [] w = w"
| "run (c # cs) w = run cs (transact (exec c) w)"

text \<open>
  The states the system can be in: it starts with a factory that has created no pool, and
  goes on by calls that succeed (a call that reverts changes nothing), by changes of the
  staking token's state (whatever the token does: it is a contract of its own) and by time
  passing.
\<close>

definition genesis :: "address \<Rightarrow> address \<Rightarrow> SimpleStakingToken \<Rightarrow> nat \<Rightarrow> world" where
  "genesis fAddress fOwner tk now =
     \<lparr>factory_address = fAddress, factory_owner = fOwner, pools = [],
      regionExists = (\<lambda>_. False), poolToRegion = (\<lambda>_. []), regionToPool = (\<lambda>_. 0),
      liquidityPools = (\<lambda>_. None), stakingToken = tk, block_timestamp = now\<rparr>"

inductive reachable :: "world \<Rightarrow> bool" where
  reachable_genesis: "reachable (genesis fAddress fOwner tk now)"
| reachable_call: "reachable w \<Longrightarrow> exec c w = Inr w' \<Longrightarrow> reachable w'"
| reachable_token: "reachable w \<Longrightarrow> reachable (w\<lparr>stakingToken := tk\<rparr>)"
| reachable_time: "reachable w \<Longrightarrow> block_timestamp w \<le> t \<Longrightarrow> reachable (w\<lparr>block_timestamp := t\<rparr>)"

section \<open>Notions used to state the properties\<close>

text \<open>The debt a list of debts still holds: the amounts of the entries that are not repaid.\<close>

definition activeDebt :: "Debt list \<Rightarrow> nat" where
  "activeDebt ds = (\<Sum>d\<leftarrow>ds. if isRepaid d then 0 else amount d)"

text \<open>
  Repaying one debt in several instalments: \<open>repayDebt\<close> called once for each amount of
  the list, on the same debt, each call a transaction of its own; the first call that
  reverts ends the sequence with its error.
\<close>

fun repayDebt_repeatedly :: "address \<Rightarrow> address \<Rightarrow> nat \<Rightarrow> nat list \<Rightarrow> world \<Rightarrow> error + world" where
  "repayDebt_repeatedly self sender debtIndex [] w = Inr w"
| "repayDebt_repeatedly self sender debtIndex (a # as) w =
     (case repayDebt self sender debtIndex a w of
        Inl e \<Rightarrow> Inl e
      | Inr w' \<Rightarrow> repayDebt_repeatedly self sender debtIndex as w')"





text \<open>
  The bookkeeping of debt in one pool: the debts that the users still hold add up to
  \<open>totalDebt\<close>, which is a \<open>uint256\<close>.
\<close>

definition debt_inv :: "LiquidityPool \<Rightarrow> bool" where
  "debt_inv p \<longleftrightarrow> (\<Sum>u\<in>UNIV. activeDebt (userDebts p u)) = totalDebt p \<and> totalDebt p \<le> MAX_UINT256"

definition world_inv :: "world \<Rightarrow> bool" where
  "world_inv w \<longleftrightarrow> (\<forall>a p. liquidityPools w a = Some p \<longrightarrow> debt_inv p)"

definition debts_of :: "world \<Rightarrow> address \<Rightarrow> ((address \<Rightarrow> Debt list) \<times> nat) option" where
  "debts_of w a = map_option (\<lambda>p. (userDebts p, totalDebt p)) (liquidityPools w a)"



section \<open>A concrete system\<close>

text \<open>
  One user, a merchant, an outsider, three pool addresses, the factory and its owner.  The
  user holds a million staking tokens and has approved every spender for as much.
\<close>

definition alice :: address where "alice = 1"
definition merchant :: address where "merchant = 2"
definition mallory :: address where "mallory = 3"
definition poolA :: address where "poolA = 10"
definition poolB :: address where "poolB = 11"
definition poolC :: address where "poolC = 12"
definition admin :: address where "admin = 100"
definition factoryAddr :: address where "factoryAddr = 200"

definition token0 :: SimpleStakingToken where
  "token0 = \<lparr>tk_totalSupply = 1000000, tk_balances = (\<lambda>_. 0)(alice := 1000000),
             tk_allowances = (\<lambda>_ _. 0)(alice := (\<lambda>_. 1000000)),
             hasReceivedInitialTokens = (\<lambda>_. False), tk_owner = admin\<rparr>"

definition w0 :: world where
  "w0 = genesis factoryAddr admin token0 1000"

text \<open>Two pools; the user has staked 100 in the first.\<close>

definition w_two_pools :: world where
  "w_two_pools = run [CreatePool admin poolA ''EU'', CreatePool admin poolB ''US'',
                      Stake poolA alice 100] w0"

text \<open>Two pools; the user has staked 100 in the first and 400 in the second.\<close>

definition w_two_stakes :: world where
  "w_two_stakes = run [CreatePool admin poolA ''EU'', CreatePool admin poolB ''US'',
                       Stake poolA alice 100, Stake poolB alice 400] w0"

text \<open>One pool; the user has staked 100 in it.\<close>

definition w_one_pool :: world where
  "w_one_pool = run [CreatePool admin poolA ''EU'', Stake poolA alice 100] w0"

text \<open>One pool; the user has staked 1000 in it and made a fallback payment of 100.\<close>

definition w_paid :: world where
  "w_paid = run [CreatePool admin poolA ''EU'', Stake poolA alice 1000,
                 FallbackPay poolA alice merchant 100] w0"




text \<open>
  One pool; the user has staked 1000 in it and made a fallback payment of 200, the whole of
  the collateral.
\<close>

definition w_overdrawn :: world where
  "w_overdrawn = run [CreatePool admin poolA ''EU'', Stake poolA alice 1000,
                      FallbackPay poolA alice merchant 200] w0"

text \<open>One pool; the user has staked 1000 in it and made two fallback payments, of 100 and of 50.\<close>

definition w_two_debts :: world where
  "w_two_debts = run [CreatePool admin poolA ''EU'', Stake poolA alice 1000,
                      FallbackPay poolA alice merchant 100,
                      FallbackPay poolA alice merchant 50] w0"








lemmas eval_defs = alice_def merchant_def mallory_def poolA_def poolB_def poolC_def admin_def
  factoryAddr_def token0_def w0_def genesis_def transact_def set_pool_def
  createPool_def stake_def unstake_def fallbackPay_def fallbackPay_settle_def
  executeOriginalFallbackPay_def repayDebt_def transferLiquidityToPool_def
  contributeLiquidityForPayment_def receiveLiquidity_def
  redistributeFundsFromPools_def addLiquidityFromNewPools_def
  getTotalCollateralAcrossPools_def getCollateralAvailable_def getActiveDebtAmount_def
  getStake_def getStakedAmount_def totalLiquidity_def
  tk_transfer_def tk_transferFrom_def mintInitialTokens_def tk_mint_internal_def
  tk_spendAllowance_def tk_transfer_internal_def mint_def burn_def balanceOf_def
  LiquidityPool_constructor_def LPERC20_constructor_def
  MAX_UINT256_def INITIAL_TOKEN_AMOUNT_def COLLATERAL_PERCENTAGE_BP_def BASIS_POINTS_def
  UNSTAKE_TIME_LOCK_DURATION_def Let_def

section \<open>Basic facts\<close>

lemma sum_fun_upd:
  fixes f :: "address \<Rightarrow> nat"
  shows "(\<Sum>a\<in>UNIV. (f(x := v)) a) + f x = (\<Sum>a\<in>UNIV. f a) + v"
proof -
  have "(\<Sum>a\<in>UNIV. (f(x := v)) a) = (f(x := v)) x + (\<Sum>a\<in>UNIV - {x}. (f(x := v)) a)"
    by (rule sum.remove) simp_all
  moreover have "(\<Sum>a\<in>UNIV. f a) = f x + (\<Sum>a\<in>UNIV - {x}. f a)"
    by (rule sum.remove) simp_all
  moreover have "(\<Sum>a\<in>UNIV - {x}. (f(x := v)) a) = (\<Sum>a\<in>UNIV - {x}. f a)"
    by (rule sum.cong) simp_all
  ultimately show ?thesis by simp
qed

lemma activeDebtLoop_eq:
  "acc \<le> MAX_UINT256 \<Longrightarrow>
   activeDebtLoop ds acc =
     (if acc + activeDebt ds \<le> MAX_UINT256 then Inr (acc + activeDebt ds) else Inl Panic)"
  by (induction ds arbitrary: acc) (auto simp: activeDebt_def)

lemma activeDebtLoop_0:
  "activeDebtLoop ds 0 =
     (if activeDebt ds \<le> MAX_UINT256 then Inr (activeDebt ds) else Inl Panic)"
  using activeDebtLoop_eq [of 0 ds] by simp

lemma activeDebt_Cons:
  "activeDebt (d # ds) = (if isRepaid d then 0 else amount d) + activeDebt ds"
  by (simp add: activeDebt_def)

lemma activeDebt_update:
  "i < length ds \<Longrightarrow>
     activeDebt (ds[i := d']) + (if isRepaid (ds ! i) then 0 else amount (ds ! i))
       = activeDebt ds + (if isRepaid d' then 0 else amount d')"
proof (induction ds arbitrary: i)
  case Nil
  then show ?case by simp
next
  case (Cons d ds)
  show ?case
  proof (cases i)
    case 0
    then show ?thesis by (simp add: activeDebt_Cons)
  next
    case (Suc j)
    with Cons.prems have "j < length ds" by simp
    from Cons.IH [OF this] have
      "activeDebt (ds[j := d']) + (if isRepaid (ds ! j) then 0 else amount (ds ! j))
         = activeDebt ds + (if isRepaid d' then 0 else amount d')" .
    then have "(if isRepaid d then 0 else amount d) + activeDebt (ds[j := d'])
                 + (if isRepaid (ds ! j) then 0 else amount (ds ! j))
               = (if isRepaid d then 0 else amount d) + activeDebt ds
                 + (if isRepaid d' then 0 else amount d')"
      by linarith
    with Suc show ?thesis by (simp only: list_update_code nth_Cons_Suc activeDebt_Cons)
  qed
qed

section \<open>Share conservation\<close>

lemma lp_transfer_internal_sum:
  assumes "lp_transfer_internal from to amt l = Inr l'"
  shows "sum_balances l' = sum_balances l \<and> totalSupply l' = totalSupply l"
proof -
  let ?b1 = "(balances l)(from := balances l from - amt)"
  from assms have ge: "amt \<le> balances l from"
    and l': "l' = l\<lparr>balances := ?b1(to := ?b1 to + amt)\<rparr>"
    by (auto simp: lp_transfer_internal_def Let_def split: if_splits)
  have s1: "(\<Sum>a\<in>UNIV. ?b1 a) + balances l from = (\<Sum>a\<in>UNIV. balances l a) + (balances l from - amt)"
    by (rule sum_fun_upd)
  have s2: "(\<Sum>a\<in>UNIV. (?b1(to := ?b1 to + amt)) a) + ?b1 to = (\<Sum>a\<in>UNIV. ?b1 a) + (?b1 to + amt)"
    by (rule sum_fun_upd)
  from s1 s2 ge have "(\<Sum>a\<in>UNIV. (?b1(to := ?b1 to + amt)) a) = (\<Sum>a\<in>UNIV. balances l a)"
    by linarith
  with l' show ?thesis by (simp add: sum_balances_def)
qed

lemma lp_approve_internal_sum:
  "lp_approve_internal o' s amt l = Inr l' \<Longrightarrow>
     sum_balances l' = sum_balances l \<and> totalSupply l' = totalSupply l"
  by (auto simp: lp_approve_internal_def sum_balances_def split: if_splits)

lemma mint_sum:
  assumes "mint sender to amt l = Inr l'"
  shows "sum_balances l' = sum_balances l + amt \<and> totalSupply l' = totalSupply l + amt"
proof -
  from assms have l': "l' = l\<lparr>totalSupply := totalSupply l + amt,
                  balances := (balances l)(to := balances l to + amt)\<rparr>"
    by (auto simp: mint_def split: if_splits)
  have "(\<Sum>a\<in>UNIV. ((balances l)(to := balances l to + amt)) a) + balances l to
          = (\<Sum>a\<in>UNIV. balances l a) + (balances l to + amt)"
    by (rule sum_fun_upd)
  with l' show ?thesis by (simp add: sum_balances_def)
qed

lemma burn_sum:
  assumes "burn sender from amt l = Inr l'"
  shows "sum_balances l' + amt = sum_balances l \<and> totalSupply l' + amt = totalSupply l"
proof -
  from assms have ge: "amt \<le> balances l from" and ge2: "amt \<le> totalSupply l"
    and l': "l' = l\<lparr>balances := (balances l)(from := balances l from - amt),
                  totalSupply := totalSupply l - amt\<rparr>"
    by (auto simp: burn_def split: if_splits)
  have "(\<Sum>a\<in>UNIV. ((balances l)(from := balances l from - amt)) a) + balances l from
          = (\<Sum>a\<in>UNIV. balances l a) + (balances l from - amt)"
    by (rule sum_fun_upd)
  with l' ge ge2 show ?thesis by (simp add: sum_balances_def)
qed

lemma ledger_step_conserves:
  assumes "sum_balances l = totalSupply l"
  shows "sum_balances (ledger_step l c) = totalSupply (ledger_step l c)"
proof (cases "ledger_exec l c")
  case (Inl e)
  with assms show ?thesis by (simp add: ledger_step_def)
next
  case (Inr l')
  then have "sum_balances l' = totalSupply l'"
  proof (cases c)
    case (CallTransfer sender dst amt)
    with Inr assms show ?thesis
      by (auto simp: lp_transfer_def dest: lp_transfer_internal_sum)
  next
    case (CallApprove sender spender amt)
    with Inr assms show ?thesis
      by (auto simp: lp_approve_def dest: lp_approve_internal_sum)
  next
    case (CallTransferFrom sender src dst amt)
    with Inr assms show ?thesis
      by (auto simp: lp_transferFrom_def Let_def split: if_splits sum.splits
               dest!: lp_transfer_internal_sum lp_approve_internal_sum)
  next
    case (CallMint sender dst amt)
    with Inr assms show ?thesis
      by (auto dest: mint_sum)
  next
    case (CallBurn sender src amt)
    with Inr assms show ?thesis
      by (auto dest!: burn_sum)
  qed
  with Inr show ?thesis by (simp add: ledger_step_def)
qed

lemma ledger_run_conserves:
  "sum_balances l = totalSupply l \<Longrightarrow> sum_balances (ledger_run l cs) = totalSupply (ledger_run l cs)"
  by (induction cs arbitrary: l) (simp_all add: ledger_step_conserves)

text \<open>
  C9.  Starting from the ledger the constructor creates, after every sequence of calls to
  \<open>transfer\<close>, \<open>approve\<close>, \<open>transferFrom\<close>, \<open>mint\<close> and \<open>burn\<close>, by any callers and
  with any arguments, each either taking effect or reverting, the balances of all holders
  add up to \<open>totalSupply()\<close>.
\<close>

theorem share_conservation:
  "sum_balances (ledger_run (LPERC20_constructor ownr) cs)
     = totalSupply (ledger_run (LPERC20_constructor ownr) cs)"
  by (rule ledger_run_conserves) (simp add: sum_balances_def LPERC20_constructor_def)

section \<open>Authorisation of the cross-pool commands\<close>

text \<open>
  C1.  The claim: a call to \<open>transferLiquidityToPool\<close> by a caller that is not a
  registered pool fails and changes nothing.  The code accepts the call as soon as the
  caller or the target is registered.  In the system with pools A and B, where A holds a
  liquidity of 100, an outsider that is not in the registry names B as the target and moves
  60 from A to B: the call succeeds, A is left with 40, B has 60 and holds the tokens.
  \<open>contributeLiquidityForPayment\<close> has the same check: the outsider moves 20, the
  collateral of a user of A, in the same way.
\<close>

theorem unregistered_caller_moves_liquidity:
  "\<not> isValidPool_caller (pools w_two_pools) mallory
   \<and> totalLiquidity poolA w_two_pools = Inr 100
   \<and> totalLiquidity poolB w_two_pools = Inr 0
   \<and> (case transferLiquidityToPool poolA mallory poolB mallory 60 w_two_pools of
        Inl e \<Rightarrow> False
      | Inr w' \<Rightarrow> totalLiquidity poolA w' = Inr 40 \<and> totalLiquidity poolB w' = Inr 60
                  \<and> tk_balances (stakingToken w') poolB = 60)
   \<and> (case contributeLiquidityForPayment poolA mallory poolB alice 20 w_two_pools of
        Inl e \<Rightarrow> False
      | Inr w' \<Rightarrow> totalLiquidity poolA w' = Inr 80 \<and> totalLiquidity poolB w' = Inr 20
                  \<and> tk_balances (stakingToken w') poolB = 20)"
  by (simp add: w_two_pools_def eval_defs)

section \<open>Atomicity of the fallback payment\<close>


















section \<open>The global solvency bound\<close>

lemma getCollateralAvailable_le:
  "getCollateralAvailable self usr w = Inr c \<Longrightarrow> liquidityPools w self = Some p \<Longrightarrow>
     c \<le> collateralAmount (stakers p usr)"
  by (auto simp: getCollateralAvailable_def split: sum.splits if_splits)

lemma totalCollateralLoop_ge:
  "totalCollateralLoop self usr ps acc w = Inr t \<Longrightarrow> acc \<le> t"
proof (induction ps arbitrary: acc)
  case Nil
  then show ?case by simp
next
  case (Cons a ps)
  then show ?case
    by (fastforce split: if_splits sum.splits)
qed

lemma getTotalCollateralAcrossPools_ge:
  "getTotalCollateralAcrossPools self usr w = Inr t \<Longrightarrow> liquidityPools w self = Some p \<Longrightarrow>
     collateralAmount (stakers p usr) \<le> t"
  by (auto simp: getTotalCollateralAcrossPools_def dest: totalCollateralLoop_ge)

lemma fallbackPay_settle_exceeds:
  "tot < amt \<Longrightarrow> \<exists>e. fallbackPay_settle self sender m amt tot a w = Inl e"
  by (auto simp: fallbackPay_settle_def split: sum.splits prod.splits)

text \<open>
  C3, as the code has it.  When the amount exceeds the total of the user's collateral over
  all pools, computed when the call is entered, \<open>fallbackPay\<close> fails and the system is
  left as it was.  The error is that of the first check that fails: the comparison with the
  total comes last, after the phases and after the check of what they have gathered.
\<close>

theorem fallbackPay_global_solvency:
  assumes tot: "getTotalCollateralAcrossPools self sender w = Inr tot"
    and exceeds: "tot < amt"
  shows "(\<exists>e. fallbackPay self sender merchant' amt w = Inl e)
         \<and> transact (fallbackPay self sender merchant' amt) w = w"
proof -
  have fails: "\<exists>e. fallbackPay self sender merchant' amt w = Inl e"
  proof (cases "liquidityPools w self")
    case None
    then show ?thesis by (simp add: fallbackPay_def)
  next
    case (Some p)
    show ?thesis
    proof (cases "getCollateralAvailable self sender w")
      case (Inl e)
      with Some tot show ?thesis by (simp add: fallbackPay_def)
    next
      case (Inr c)
      from Inr Some have "c \<le> collateralAmount (stakers p sender)"
        by (rule getCollateralAvailable_le)
      also from tot Some have "\<dots> \<le> tot"
        by (rule getTotalCollateralAcrossPools_ge)
      finally have notfast: "\<not> amt \<le> c" using exceeds by simp
      have settle: "\<exists>e. fallbackPay_settle self sender merchant' amt tot a w1 = Inl e" for a w1
        using exceeds by (rule fallbackPay_settle_exceeds)
      show ?thesis
      proof (cases "if totalLiquidityStaked p < amt
                    then redistributeFundsFromPools self sender amt c w else Inr (c, w)")
        case (Inl e)
        with Some tot Inr notfast show ?thesis
          by (simp add: fallbackPay_def Let_def)
      next
        case r: (Inr aw)
        obtain a w1 where aw: "aw = (a, w1)" by (cases aw)
        from settle [of a w1] obtain e where
          "fallbackPay_settle self sender merchant' amt tot a w1 = Inl e" ..
        with Some tot Inr notfast r aw show ?thesis
          by (simp add: fallbackPay_def Let_def)
      qed
    qed
  qed
  then show ?thesis by (auto simp: transact_def)
qed

text \<open>
  The user's collateral is 20 in A and 80 in B; a payment of 150 exceeds the total of 100.
  Here the phases gather the amount and the call fails at the comparison with the total.
\<close>

theorem fallbackPay_global_solvency_witness:
  "getTotalCollateralAcrossPools poolA alice w_two_stakes = Inr 100 \<and> (100::nat) < 150
   \<and> (\<exists>e. fallbackPay poolA alice merchant 150 w_two_stakes = Inl e)
   \<and> fallbackPay poolA alice merchant 150 w_two_stakes = Inl (Revert ''Exceeds collateral limit'')
   \<and> transact (fallbackPay poolA alice merchant 150) w_two_stakes = w_two_stakes"
proof -
  have t: "getTotalCollateralAcrossPools poolA alice w_two_stakes = Inr 100"
    by (simp add: w_two_stakes_def eval_defs)
  have lt: "(100::nat) < 150" by simp
  have f: "fallbackPay poolA alice merchant 150 w_two_stakes = Inl (Revert ''Exceeds collateral limit'')"
    by (simp add: w_two_stakes_def eval_defs)
  from t f fallbackPay_global_solvency [OF t lt, of merchant] show ?thesis by simp
qed

text \<open>
  C3 as stated fails: in the system with one pool, where the user has staked 100 and so has
  a collateral of 20, a payment of 30 exceeds the total, and the call fails with
  \<open>Insufficient liquidity\<close>, not with the error of the collateral limit.
\<close>

theorem fallbackPay_exceeding_reports_liquidity:
  "getTotalCollateralAcrossPools poolA alice w_one_pool = Inr 20 \<and> (20::nat) < 30
   \<and> fallbackPay poolA alice merchant 30 w_one_pool = Inl (Revert ''Insufficient liquidity'')
   \<and> fallbackPay poolA alice merchant 30 w_one_pool \<noteq> Inl (Revert ''Exceeds collateral limit'')"
  by (simp add: w_one_pool_def eval_defs)

section \<open>Collateral and stake\<close>

text \<open>
  C4.  The claim: after every \<open>stake\<close> and \<open>unstake\<close> the collateral is 20% of the
  staked amount.  \<open>stake\<close> adds the rounded 20% of each deposit to the collateral instead
  of computing it from the new staked amount, as \<open>executeOriginalFallbackPay\<close> does.
  After two deposits of 4 the staked amount is 8 and the collateral is 0, where 20% of 8,
  rounded down, is 1.
\<close>

theorem stake_twice_collateral_drifts:
  "(case liquidityPools (run [CreatePool admin poolA ''EU'', Stake poolA alice 4,
                              Stake poolA alice 4] w0) poolA of
      None \<Rightarrow> False
    | Some p \<Rightarrow> stakedAmount (stakers p alice) = 8 \<and> collateralAmount (stakers p alice) = 0)
   \<and> (8 * COLLATERAL_PERCENTAGE_BP) div BASIS_POINTS = 1"
  by (simp add: eval_defs)

section \<open>The unstake restriction after a fallback payment\<close>

text \<open>
  C5.  The claim: while the timer set by a fallback payment has not expired, \<open>unstake\<close>
  is rejected.  \<open>unstake\<close> never reads the timer.  After a stake of 1000 and a payment
  of 100 at time 1000 the timer stands at 87400 and the debt of 100 is open; an
  \<open>unstake\<close> of 90 shares in the same block succeeds.
\<close>

theorem unstake_ignores_timelock:
  "(case liquidityPools w_paid poolA of
      None \<Rightarrow> False
    | Some p \<Rightarrow> debtRelatedUnstakeTimelock p alice = 87400 \<and> activeDebt (userDebts p alice) = 100)
   \<and> block_timestamp w_paid = 1000
   \<and> (case unstake poolA alice 90 w_paid of
        Inl e \<Rightarrow> False
      | Inr w' \<Rightarrow>
          (case liquidityPools w' poolA of
             None \<Rightarrow> False
           | Some p' \<Rightarrow> stakedAmount (stakers p' alice) = 810
                        \<and> lpTokensMinted (stakers p' alice) = 810))"
  by (simp add: w_paid_def activeDebt_def eval_defs)

section \<open>Repaying a debt\<close>

lemma activeDebt_ge_entry:
  "i < length ds \<Longrightarrow> \<not> isRepaid (ds ! i) \<Longrightarrow> amount (ds ! i) \<le> activeDebt ds"
proof (induction ds arbitrary: i)
  case Nil
  then show ?case by simp
next
  case (Cons d ds)
  show ?case
  proof (cases i)
    case 0
    with Cons.prems show ?thesis by (simp add: activeDebt_Cons)
  next
    case (Suc j)
    with Cons.prems have "amount (ds ! j) \<le> activeDebt ds" by (intro Cons.IH) simp_all
    with Suc show ?thesis by (simp add: activeDebt_Cons)
  qed
qed

lemma repayDebt_step:
  assumes ok: "repayDebt self sender i a w = Inr w'"
    and pool: "liquidityPools w self = Some p"
  shows "\<exists>p'. liquidityPools w' self = Some p'
           \<and> 0 < a \<and> i < length (userDebts p sender) \<and> \<not> isRepaid (userDebts p sender ! i)
           \<and> a \<le> amount (userDebts p sender ! i) \<and> a \<le> totalDebt p
           \<and> userDebts p' sender = (userDebts p sender)[i :=
                 (if a = amount (userDebts p sender ! i)
                  then (userDebts p sender ! i)\<lparr>isRepaid := True\<rparr>
                  else (userDebts p sender ! i)\<lparr>amount := amount (userDebts p sender ! i) - a\<rparr>)]
           \<and> totalDebt p' = totalDebt p - a
           \<and> debtRelatedUnstakeTimelock p' sender =
                 (if activeDebt (userDebts p' sender) = 0 then 0
                  else debtRelatedUnstakeTimelock p sender)"
proof -
  let ?ds = "userDebts p sender"
  let ?d = "?ds ! i"
  let ?d' = "if a = amount ?d then ?d\<lparr>isRepaid := True\<rparr> else ?d\<lparr>amount := amount ?d - a\<rparr>"
  from ok pool have c1: "status p = ACTIVE"
    by (simp add: repayDebt_def split: if_splits)
  from ok pool c1 have c2: "0 < a"
    by (simp add: repayDebt_def split: if_splits)
  from ok pool c1 c2 have c3: "i < length ?ds"
    by (simp add: repayDebt_def split: if_splits)
  from ok pool c1 c2 c3 have c4: "\<not> isRepaid ?d"
    by (simp add: repayDebt_def Let_def split: if_splits)
  from ok pool c1 c2 c3 c4 have c5: "a \<le> amount ?d"
    by (simp add: repayDebt_def Let_def split: if_splits)
  from ok pool c1 c2 c3 c4 c5 obtain tk where
    tk: "tk_transferFrom self sender self a (stakingToken w) = Inr tk"
    by (cases "tk_transferFrom self sender self a (stakingToken w)")
       (simp_all add: repayDebt_def Let_def)
  from ok pool c1 c2 c3 c4 c5 tk have c6: "a \<le> totalDebt p"
    by (simp add: repayDebt_def Let_def split: if_splits)
  from ok pool c1 c2 c3 c4 c5 tk c6 have c7: "activeDebt (?ds[i := ?d']) \<le> MAX_UINT256"
    by (simp add: repayDebt_def Let_def activeDebtLoop_0 split: if_splits)
  from ok pool c1 c2 c3 c4 c5 tk c6 c7 have
    w': "w' = set_pool self
               (p\<lparr>userDebts := (userDebts p)(sender := ?ds[i := ?d']),
                  totalDebt := totalDebt p - a,
                  debtRelatedUnstakeTimelock :=
                    (if activeDebt (?ds[i := ?d']) = 0 then (debtRelatedUnstakeTimelock p)(sender := 0)
                     else debtRelatedUnstakeTimelock p)\<rparr>)
               (w\<lparr>stakingToken := tk\<rparr>)"
    by (simp add: repayDebt_def Let_def activeDebtLoop_0)
  show ?thesis
    using c2 c3 c4 c5 c6 by (simp add: w' set_pool_def)
qed


lemma repayDebt_repaid_fails:
  "liquidityPools w self = Some p \<Longrightarrow> i < length (userDebts p sender) \<Longrightarrow>
     isRepaid (userDebts p sender ! i) \<Longrightarrow> \<exists>e. repayDebt self sender i a w = Inl e"
  by (simp add: repayDebt_def Let_def)

text \<open>The last instalment: it equals what is left of the debt.\<close>

lemma repayDebt_last:
  assumes ok: "repayDebt self sender i a w = Inr w'"
    and pool: "liquidityPools w self = Some p"
    and eq: "a = amount (userDebts p sender ! i)"
  shows "\<exists>p'. liquidityPools w' self = Some p'
           \<and> length (userDebts p' sender) = length (userDebts p sender)
           \<and> isRepaid (userDebts p' sender ! i)
           \<and> activeDebt (userDebts p' sender) + a = activeDebt (userDebts p sender)
           \<and> totalDebt p' + a = totalDebt p
           \<and> debtRelatedUnstakeTimelock p' sender =
                 (if activeDebt (userDebts p' sender) = 0 then 0
                  else debtRelatedUnstakeTimelock p sender)"
proof -
  let ?ds = "userDebts p sender"
  from repayDebt_step [OF ok pool] obtain p' where
    p': "liquidityPools w' self = Some p'"
    and i: "i < length ?ds" and unpaid: "\<not> isRepaid (?ds ! i)" and le: "a \<le> totalDebt p"
    and ds': "userDebts p' sender = ?ds[i :=
                 (if a = amount (?ds ! i) then (?ds ! i)\<lparr>isRepaid := True\<rparr>
                  else (?ds ! i)\<lparr>amount := amount (?ds ! i) - a\<rparr>)]"
    and td: "totalDebt p' = totalDebt p - a"
    and tl: "debtRelatedUnstakeTimelock p' sender =
               (if activeDebt (userDebts p' sender) = 0 then 0
                else debtRelatedUnstakeTimelock p sender)"
    by (elim exE conjE)
  from ds' eq have ds: "userDebts p' sender = ?ds[i := (?ds ! i)\<lparr>isRepaid := True\<rparr>]"
    by simp
  have "activeDebt (?ds[i := (?ds ! i)\<lparr>isRepaid := True\<rparr>])
          + (if isRepaid (?ds ! i) then 0 else amount (?ds ! i))
        = activeDebt ?ds + (if isRepaid ((?ds ! i)\<lparr>isRepaid := True\<rparr>) then 0
                            else amount ((?ds ! i)\<lparr>isRepaid := True\<rparr>))"
    using i by (rule activeDebt_update)
  with unpaid eq have act: "activeDebt (userDebts p' sender) + a = activeDebt ?ds"
    by (simp add: ds)
  have len: "length (userDebts p' sender) = length ?ds" by (simp add: ds)
  have rep: "isRepaid (userDebts p' sender ! i)" using i by (simp add: ds)
  have tot: "totalDebt p' + a = totalDebt p" using td le by simp
  from p' len rep act tot tl show ?thesis by (intro exI conjI)
qed

text \<open>An instalment that leaves part of the debt.\<close>

lemma repayDebt_part:
  assumes ok: "repayDebt self sender i a w = Inr w'"
    and pool: "liquidityPools w self = Some p"
    and neq: "a \<noteq> amount (userDebts p sender ! i)"
  shows "\<exists>p'. liquidityPools w' self = Some p'
           \<and> length (userDebts p' sender) = length (userDebts p sender)
           \<and> \<not> isRepaid (userDebts p' sender ! i)
           \<and> amount (userDebts p' sender ! i) + a = amount (userDebts p sender ! i)
           \<and> 0 < amount (userDebts p' sender ! i)
           \<and> activeDebt (userDebts p' sender) + a = activeDebt (userDebts p sender)
           \<and> totalDebt p' + a = totalDebt p
           \<and> debtRelatedUnstakeTimelock p' sender = debtRelatedUnstakeTimelock p sender"
proof -
  let ?ds = "userDebts p sender"
  from repayDebt_step [OF ok pool] obtain p' where
    p': "liquidityPools w' self = Some p'"
    and i: "i < length ?ds" and unpaid: "\<not> isRepaid (?ds ! i)"
    and le: "a \<le> amount (?ds ! i)" "a \<le> totalDebt p"
    and ds': "userDebts p' sender = ?ds[i :=
                 (if a = amount (?ds ! i) then (?ds ! i)\<lparr>isRepaid := True\<rparr>
                  else (?ds ! i)\<lparr>amount := amount (?ds ! i) - a\<rparr>)]"
    and td: "totalDebt p' = totalDebt p - a"
    and tl: "debtRelatedUnstakeTimelock p' sender =
               (if activeDebt (userDebts p' sender) = 0 then 0
                else debtRelatedUnstakeTimelock p sender)"
    by (elim exE conjE)
  from ds' neq have ds: "userDebts p' sender = ?ds[i := (?ds ! i)\<lparr>amount := amount (?ds ! i) - a\<rparr>]"
    by simp
  have "activeDebt (?ds[i := (?ds ! i)\<lparr>amount := amount (?ds ! i) - a\<rparr>])
          + (if isRepaid (?ds ! i) then 0 else amount (?ds ! i))
        = activeDebt ?ds + (if isRepaid ((?ds ! i)\<lparr>amount := amount (?ds ! i) - a\<rparr>) then 0
                            else amount ((?ds ! i)\<lparr>amount := amount (?ds ! i) - a\<rparr>))"
    using i by (rule activeDebt_update)
  with unpaid le have act: "activeDebt (userDebts p' sender) + a = activeDebt ?ds"
    by (simp add: ds)
  have len: "length (userDebts p' sender) = length ?ds" by (simp add: ds)
  have rep: "\<not> isRepaid (userDebts p' sender ! i)" using i unpaid by (simp add: ds)
  have am: "amount (userDebts p' sender ! i) + a = amount (?ds ! i)" using i le by (simp add: ds)
  have pos: "0 < amount (userDebts p' sender ! i)" using i le neq by (simp add: ds)
  have tot: "totalDebt p' + a = totalDebt p" using td le by simp
  have "i < length (userDebts p' sender)" using i len by simp
  then have "amount (userDebts p' sender ! i) \<le> activeDebt (userDebts p' sender)"
    using rep by (rule activeDebt_ge_entry)
  with pos have "activeDebt (userDebts p' sender) \<noteq> 0" by simp
  with tl have keep: "debtRelatedUnstakeTimelock p' sender = debtRelatedUnstakeTimelock p sender"
    by simp
  from p' len rep am pos act tot keep show ?thesis by (intro exI conjI)
qed


text \<open>
  C8.  A debt that is not repaid is paid off in instalments, by calls to \<open>repayDebt\<close>
  that succeed and whose amounts add up to the amount of the debt.  Then the entry is marked
  repaid, the user's active debt in the pool and the pool's \<open>totalDebt\<close> are both lower by
  the amount of the debt, and the unstake timer is zero when the user has no active debt
  left in the pool, and what it was before the instalments when the user still has.  (A
  call that succeeds has a positive amount, at most what is left of the debt:
  \<open>repayDebt_step\<close>.)
\<close>

theorem repayDebt_round_trip:
  assumes pool: "liquidityPools w self = Some p"
    and idx: "debtIndex < length (userDebts p sender)"
    and unpaid: "\<not> isRepaid (userDebts p sender ! debtIndex)"
    and nonempty: "instalments \<noteq> []"
    and covers: "sum_list instalments = amount (userDebts p sender ! debtIndex)"
    and ok: "repayDebt_repeatedly self sender debtIndex instalments w = Inr w'"
  shows "\<exists>p'. liquidityPools w' self = Some p'
           \<and> length (userDebts p' sender) = length (userDebts p sender)
           \<and> isRepaid (userDebts p' sender ! debtIndex)
           \<and> activeDebt (userDebts p' sender) + amount (userDebts p sender ! debtIndex)
                = activeDebt (userDebts p sender)
           \<and> totalDebt p' + amount (userDebts p sender ! debtIndex) = totalDebt p
           \<and> debtRelatedUnstakeTimelock p' sender =
                 (if activeDebt (userDebts p' sender) = 0 then 0
                  else debtRelatedUnstakeTimelock p sender)"
  using pool idx unpaid nonempty covers ok
proof (induction instalments arbitrary: w p)
  case Nil
  then show ?case by simp
next
  case (Cons a rest)
  note pool = Cons.prems(1) and idx = Cons.prems(2) and unpaid = Cons.prems(3)
    and covers = Cons.prems(5) and ok = Cons.prems(6)
  from ok obtain w1 where
    first: "repayDebt self sender debtIndex a w = Inr w1"
    and later: "repayDebt_repeatedly self sender debtIndex rest w1 = Inr w'"
    by (cases "repayDebt self sender debtIndex a w") simp_all
  show ?case
  proof (cases "a = amount (userDebts p sender ! debtIndex)")
    case True
    from repayDebt_last [OF first pool True] obtain p1 where
      p1: "liquidityPools w1 self = Some p1"
      and len1: "length (userDebts p1 sender) = length (userDebts p sender)"
      and rep1: "isRepaid (userDebts p1 sender ! debtIndex)"
      and act1: "activeDebt (userDebts p1 sender) + a = activeDebt (userDebts p sender)"
      and tot1: "totalDebt p1 + a = totalDebt p"
      and tl1: "debtRelatedUnstakeTimelock p1 sender =
                  (if activeDebt (userDebts p1 sender) = 0 then 0
                   else debtRelatedUnstakeTimelock p sender)"
      by (elim exE conjE)
    have "rest = []"
    proof (cases rest)
      case Nil
      then show ?thesis .
    next
      case (Cons b bs)
      from idx len1 have "debtIndex < length (userDebts p1 sender)" by simp
      with p1 have "\<exists>e. repayDebt self sender debtIndex b w1 = Inl e"
        using rep1 by (rule repayDebt_repaid_fails)
      with later Cons show ?thesis by auto
    qed
    with later have w': "w' = w1" by simp
    from p1 len1 rep1 act1 tot1 tl1 show ?thesis
      unfolding w' True [symmetric] by (intro exI conjI)
  next
    case False
    from repayDebt_part [OF first pool False] obtain p1 where
      p1: "liquidityPools w1 self = Some p1"
      and len1: "length (userDebts p1 sender) = length (userDebts p sender)"
      and unpaid1: "\<not> isRepaid (userDebts p1 sender ! debtIndex)"
      and am1: "amount (userDebts p1 sender ! debtIndex) + a = amount (userDebts p sender ! debtIndex)"
      and pos1: "0 < amount (userDebts p1 sender ! debtIndex)"
      and act1: "activeDebt (userDebts p1 sender) + a = activeDebt (userDebts p sender)"
      and tot1: "totalDebt p1 + a = totalDebt p"
      and keep1: "debtRelatedUnstakeTimelock p1 sender = debtRelatedUnstakeTimelock p sender"
      by (elim exE conjE)
    from covers am1 have sum1: "sum_list rest = amount (userDebts p1 sender ! debtIndex)"
      by simp
    with pos1 have ne1: "rest \<noteq> []" by auto
    from idx len1 have idx1: "debtIndex < length (userDebts p1 sender)" by simp
    from Cons.IH [OF p1 idx1 unpaid1 ne1 sum1 later] obtain p' where
      p': "liquidityPools w' self = Some p'"
      and l': "length (userDebts p' sender) = length (userDebts p1 sender)"
      and r': "isRepaid (userDebts p' sender ! debtIndex)"
      and act': "activeDebt (userDebts p' sender) + amount (userDebts p1 sender ! debtIndex)
                  = activeDebt (userDebts p1 sender)"
      and td': "totalDebt p' + amount (userDebts p1 sender ! debtIndex) = totalDebt p1"
      and tl': "debtRelatedUnstakeTimelock p' sender =
                  (if activeDebt (userDebts p' sender) = 0 then 0
                   else debtRelatedUnstakeTimelock p1 sender)"
      by (elim exE conjE)
    have l: "length (userDebts p' sender) = length (userDebts p sender)"
      using l' len1 by simp
    have act: "activeDebt (userDebts p' sender) + amount (userDebts p sender ! debtIndex)
                 = activeDebt (userDebts p sender)"
      using act' act1 am1 by linarith
    have td: "totalDebt p' + amount (userDebts p sender ! debtIndex) = totalDebt p"
      using td' tot1 am1 by linarith
    have tl: "debtRelatedUnstakeTimelock p' sender =
                (if activeDebt (userDebts p' sender) = 0 then 0
                 else debtRelatedUnstakeTimelock p sender)"
      using tl' keep1 by simp
    from p' l r' act td tl show ?thesis by (intro exI conjI)
  qed
qed

text \<open>
  One debt of 100, the only one of the user, repaid by 40 and then 60: the entry is
  repaid, no active debt is left and the timer is zero.  The same instalments on the first
  of two debts, of 100 and 50: the entry is repaid, the active debt is the 50 of the other
  debt, and the timer stays at 87400.
\<close>

theorem repayDebt_round_trip_witness:
  "(\<exists>w' p'. repayDebt_repeatedly poolA alice 0 [40, 60] w_paid = Inr w'
      \<and> liquidityPools w' poolA = Some p'
      \<and> isRepaid (userDebts p' alice ! 0)
      \<and> activeDebt (userDebts p' alice) = 0
      \<and> totalDebt p' = 0
      \<and> debtRelatedUnstakeTimelock p' alice = 0)
   \<and> (\<exists>w' p'. repayDebt_repeatedly poolA alice 0 [40, 60] w_two_debts = Inr w'
      \<and> liquidityPools w' poolA = Some p'
      \<and> isRepaid (userDebts p' alice ! 0)
      \<and> activeDebt (userDebts p' alice) = 50
      \<and> totalDebt p' = 50
      \<and> debtRelatedUnstakeTimelock p' alice = 87400)"
proof -
  have ne: "[40, 60::nat] \<noteq> []" by simp
  have one: "\<exists>w' p'. repayDebt_repeatedly poolA alice 0 [40, 60] w_paid = Inr w'
      \<and> liquidityPools w' poolA = Some p'
      \<and> isRepaid (userDebts p' alice ! 0)
      \<and> activeDebt (userDebts p' alice) = 0
      \<and> totalDebt p' = 0
      \<and> debtRelatedUnstakeTimelock p' alice = 0"
  proof -
    have "\<exists>p. liquidityPools w_paid poolA = Some p \<and> length (userDebts p alice) = 1
            \<and> \<not> isRepaid (userDebts p alice ! 0) \<and> amount (userDebts p alice ! 0) = 100
            \<and> activeDebt (userDebts p alice) = 100 \<and> totalDebt p = 100
            \<and> debtRelatedUnstakeTimelock p alice = 87400"
      by (simp add: w_paid_def activeDebt_def eval_defs)
    then obtain p where pool: "liquidityPools w_paid poolA = Some p"
      and len: "length (userDebts p alice) = 1"
      and unpaid: "\<not> isRepaid (userDebts p alice ! 0)"
      and am: "amount (userDebts p alice ! 0) = 100"
      and act: "activeDebt (userDebts p alice) = 100" and td: "totalDebt p = 100"
      by (elim exE conjE)
    have "\<exists>w'. repayDebt_repeatedly poolA alice 0 [40, 60] w_paid = Inr w'"
      by (simp add: w_paid_def eval_defs)
    then obtain w' where ok: "repayDebt_repeatedly poolA alice 0 [40, 60] w_paid = Inr w'" ..
    have idx: "0 < length (userDebts p alice)" by (simp add: len)
    have covers: "sum_list [40, 60] = amount (userDebts p alice ! 0)" by (simp add: am)
    from repayDebt_round_trip [OF pool idx unpaid ne covers ok] obtain p' where
      "liquidityPools w' poolA = Some p'" "isRepaid (userDebts p' alice ! 0)"
      "activeDebt (userDebts p' alice) + amount (userDebts p alice ! 0) = activeDebt (userDebts p alice)"
      "totalDebt p' + amount (userDebts p alice ! 0) = totalDebt p"
      "debtRelatedUnstakeTimelock p' alice =
         (if activeDebt (userDebts p' alice) = 0 then 0 else debtRelatedUnstakeTimelock p alice)"
      by (elim exE conjE)
    with ok am act td show ?thesis by (intro exI [of _ w'] exI [of _ p']) simp
  qed
  have two: "\<exists>w' p'. repayDebt_repeatedly poolA alice 0 [40, 60] w_two_debts = Inr w'
      \<and> liquidityPools w' poolA = Some p'
      \<and> isRepaid (userDebts p' alice ! 0)
      \<and> activeDebt (userDebts p' alice) = 50
      \<and> totalDebt p' = 50
      \<and> debtRelatedUnstakeTimelock p' alice = 87400"
  proof -
    have "\<exists>p. liquidityPools w_two_debts poolA = Some p \<and> length (userDebts p alice) = 2
            \<and> \<not> isRepaid (userDebts p alice ! 0) \<and> amount (userDebts p alice ! 0) = 100
            \<and> activeDebt (userDebts p alice) = 150 \<and> totalDebt p = 150
            \<and> debtRelatedUnstakeTimelock p alice = 87400"
      by (simp add: w_two_debts_def activeDebt_def eval_defs)
    then obtain p where pool: "liquidityPools w_two_debts poolA = Some p"
      and len: "length (userDebts p alice) = 2"
      and unpaid: "\<not> isRepaid (userDebts p alice ! 0)"
      and am: "amount (userDebts p alice ! 0) = 100"
      and act: "activeDebt (userDebts p alice) = 150" and td: "totalDebt p = 150"
      and tl: "debtRelatedUnstakeTimelock p alice = 87400"
      by (elim exE conjE)
    have "\<exists>w'. repayDebt_repeatedly poolA alice 0 [40, 60] w_two_debts = Inr w'"
      by (simp add: w_two_debts_def eval_defs)
    then obtain w' where ok: "repayDebt_repeatedly poolA alice 0 [40, 60] w_two_debts = Inr w'" ..
    have idx: "0 < length (userDebts p alice)" by (simp add: len)
    have covers: "sum_list [40, 60] = amount (userDebts p alice ! 0)" by (simp add: am)
    from repayDebt_round_trip [OF pool idx unpaid ne covers ok] obtain p' where
      "liquidityPools w' poolA = Some p'" "isRepaid (userDebts p' alice ! 0)"
      "activeDebt (userDebts p' alice) + amount (userDebts p alice ! 0) = activeDebt (userDebts p alice)"
      "totalDebt p' + amount (userDebts p alice ! 0) = totalDebt p"
      "debtRelatedUnstakeTimelock p' alice =
         (if activeDebt (userDebts p' alice) = 0 then 0 else debtRelatedUnstakeTimelock p alice)"
      by (elim exE conjE)
    with ok am act td tl show ?thesis by (intro exI [of _ w'] exI [of _ p']) simp
  qed
  from one two show ?thesis by (rule conjI)
qed

section \<open>Phase 1 of the fallback payment\<close>










section \<open>Available collateral\<close>

text \<open>
  In every reachable state the debts the users still hold in a pool add up to the pool's
  \<open>totalDebt\<close>: \<open>executeOriginalFallbackPay\<close> adds the amount to both,
  \<open>repayDebt\<close> takes the amount from both, and nothing else touches either.
\<close>

lemma world_inv_debts_of:
  "world_inv w = (\<forall>a ud td. debts_of w a = Some (ud, td) \<longrightarrow>
                    (\<Sum>u\<in>UNIV. activeDebt (ud u)) = td \<and> td \<le> MAX_UINT256)"
  by (auto simp: world_inv_def debts_of_def debt_inv_def)

lemma world_inv_frame:
  "debts_of w' = debts_of w \<Longrightarrow> world_inv w \<Longrightarrow> world_inv w'"
  by (simp add: world_inv_debts_of)

lemma debts_of_token [simp]:
  "debts_of (w\<lparr>stakingToken := tk\<rparr>) = debts_of w"
  by (simp add: debts_of_def fun_eq_iff)

lemma debts_of_time [simp]:
  "debts_of (w\<lparr>block_timestamp := t\<rparr>) = debts_of w"
  by (simp add: debts_of_def fun_eq_iff)

lemma debts_of_factory_owner [simp]:
  "debts_of (w\<lparr>factory_owner := x\<rparr>) = debts_of w"
  by (simp add: debts_of_def fun_eq_iff)

lemma debts_of_set_pool:
  "liquidityPools w self = Some p \<Longrightarrow> userDebts p' = userDebts p \<Longrightarrow> totalDebt p' = totalDebt p \<Longrightarrow>
     debts_of (set_pool self p' w) = debts_of w"
  by (auto simp: debts_of_def set_pool_def fun_eq_iff)

lemma toggleStatus_frame:
  "toggleStatus self sender w = Inr w' \<Longrightarrow> debts_of w' = debts_of w"
  by (auto simp: toggleStatus_def debts_of_set_pool split: option.splits if_splits)

lemma setStatus_frame:
  "setStatus self sender st w = Inr w' \<Longrightarrow> debts_of w' = debts_of w"
  by (auto simp: setStatus_def debts_of_set_pool split: option.splits if_splits)

lemma setApy_frame:
  "setApy self sender bp w = Inr w' \<Longrightarrow> debts_of w' = debts_of w"
  by (auto simp: setApy_def debts_of_set_pool split: option.splits if_splits)

lemma addRewardsToPot_frame:
  "addRewardsToPot self sender amt w = Inr w' \<Longrightarrow> debts_of w' = debts_of w"
  by (auto simp: addRewardsToPot_def debts_of_set_pool split: option.splits if_splits)

lemma distributeRewards_frame:
  "distributeRewards self sender w = Inr w' \<Longrightarrow> debts_of w' = debts_of w"
  by (auto simp: distributeRewards_def debts_of_set_pool split: option.splits if_splits)

lemma emergencyWithdraw_frame:
  "emergencyWithdraw self sender w = Inr w' \<Longrightarrow> debts_of w' = debts_of w"
  by (auto simp: emergencyWithdraw_def Let_def split: option.splits if_splits sum.splits)

lemma receiveLiquidity_frame:
  "receiveLiquidity self sender amt w = Inr w' \<Longrightarrow> debts_of w' = debts_of w"
  by (auto simp: receiveLiquidity_def debts_of_set_pool split: option.splits if_splits)

lemma transferLiquidityToPool_frame:
  assumes "transferLiquidityToPool self sender target usr amt w = Inr w'"
  shows "debts_of w' = debts_of w"
proof -
  from assms obtain p tk where p: "liquidityPools w self = Some p"
    and r: "receiveLiquidity target self amt
              (set_pool self (p\<lparr>totalLiquidityStaked := totalLiquidityStaked p - amt\<rparr>)
                 (w\<lparr>stakingToken := tk\<rparr>)) = Inr w'"
    by (auto simp: transferLiquidityToPool_def split: option.splits if_splits sum.splits)
  from p have "debts_of (set_pool self (p\<lparr>totalLiquidityStaked := totalLiquidityStaked p - amt\<rparr>)
                 (w\<lparr>stakingToken := tk\<rparr>)) = debts_of (w\<lparr>stakingToken := tk\<rparr>)"
    by (intro debts_of_set_pool) simp_all
  with receiveLiquidity_frame [OF r] show ?thesis by simp
qed

lemma contributeLiquidityForPayment_frame:
  assumes "contributeLiquidityForPayment self sender target usr amt w = Inr w'"
  shows "debts_of w' = debts_of w"
proof -
  from assms obtain p tk where p: "liquidityPools w self = Some p"
    and r: "receiveLiquidity target self amt
              (set_pool self (p\<lparr>totalLiquidityStaked := totalLiquidityStaked p - amt\<rparr>)
                 (w\<lparr>stakingToken := tk\<rparr>)) = Inr w'"
    by (auto simp: contributeLiquidityForPayment_def Let_def split: option.splits if_splits sum.splits)
  from p have "debts_of (set_pool self (p\<lparr>totalLiquidityStaked := totalLiquidityStaked p - amt\<rparr>)
                 (w\<lparr>stakingToken := tk\<rparr>)) = debts_of (w\<lparr>stakingToken := tk\<rparr>)"
    by (intro debts_of_set_pool) simp_all
  with receiveLiquidity_frame [OF r] show ?thesis by simp
qed

lemma redistributeLoop_frame:
  "redistributeLoop self usr ps n g w = Inr (g', w') \<Longrightarrow> debts_of w' = debts_of w"
proof (induction ps arbitrary: n g w)
  case Nil
  then show ?case by simp
next
  case (Cons a ps)
  then show ?case
    by (auto simp: Let_def split: if_splits sum.splits dest!: transferLiquidityToPool_frame)
qed

lemma addLiquidityLoop_frame:
  "addLiquidityLoop self usr ps n g w = Inr (g', w') \<Longrightarrow> debts_of w' = debts_of w"
proof (induction ps arbitrary: n g w)
  case Nil
  then show ?case by simp
next
  case (Cons a ps)
  then show ?case
    by (auto simp: Let_def split: if_splits sum.splits dest!: contributeLiquidityForPayment_frame)
qed


lemma stake_frame:
  assumes "stake self sender amt w = Inr w'"
  shows "debts_of w' = debts_of w"
proof -
  from assms obtain p p' tk where "liquidityPools w self = Some p"
    and "w' = set_pool self p' (w\<lparr>stakingToken := tk\<rparr>)"
    and "userDebts p' = userDebts p" and "totalDebt p' = totalDebt p"
    by (auto simp: stake_def Let_def split: option.splits if_splits sum.splits)
  then show ?thesis by (simp add: debts_of_set_pool)
qed

lemma unstake_frame:
  assumes "unstake self sender lp w = Inr w'"
  shows "debts_of w' = debts_of w"
proof -
  from assms obtain p p' tk where "liquidityPools w self = Some p"
    and "w' = set_pool self p' (w\<lparr>stakingToken := tk\<rparr>)"
    and "userDebts p' = userDebts p" and "totalDebt p' = totalDebt p"
    by (auto simp: unstake_def Let_def split: option.splits if_splits sum.splits)
  then show ?thesis by (simp add: debts_of_set_pool)
qed

lemma lpTokenCall_frame:
  "lpTokenCall a c w = Inr w' \<Longrightarrow> debts_of w' = debts_of w"
  by (auto simp: lpTokenCall_def debts_of_set_pool split: option.splits sum.splits)

lemma transferOwnership_frame:
  "transferOwnership sender newOwner w = Inr w' \<Longrightarrow> debts_of w' = debts_of w"
  by (auto simp: transferOwnership_def split: if_splits)

lemma togglePoolStatus_frame:
  "togglePoolStatus sender a w = Inr w' \<Longrightarrow> debts_of w' = debts_of w"
  by (auto simp: togglePoolStatus_def split: if_splits dest: toggleStatus_frame)

lemma addRewardsToPool_frame:
  "addRewardsToPool sender a amt w = Inr w' \<Longrightarrow> debts_of w' = debts_of w"
  by (auto simp: addRewardsToPool_def split: if_splits sum.splits dest!: addRewardsToPot_frame)


lemma sum_activeDebt_upd:
  fixes ud :: "address \<Rightarrow> Debt list"
  shows "(\<Sum>u\<in>UNIV. activeDebt ((ud(s := x)) u)) + activeDebt (ud s)
     = (\<Sum>u\<in>UNIV. activeDebt (ud u)) + activeDebt x"
proof -
  have "(\<lambda>u. activeDebt ((ud(s := x)) u)) = (\<lambda>u. activeDebt (ud u))(s := activeDebt x)"
    by (simp add: fun_eq_iff)
  then have "(\<Sum>u\<in>UNIV. activeDebt ((ud(s := x)) u))
               = (\<Sum>u\<in>UNIV. ((\<lambda>u. activeDebt (ud u))(s := activeDebt x)) u)"
    by (rule arg_cong)
  also have "\<dots> + activeDebt (ud s) = (\<Sum>u\<in>UNIV. activeDebt (ud u)) + activeDebt x"
    by (rule sum_fun_upd)
  finally show ?thesis .
qed

lemma activeDebt_le_sum:
  fixes ud :: "address \<Rightarrow> Debt list"
  shows "activeDebt (ud u) \<le> (\<Sum>v\<in>UNIV. activeDebt (ud v))"
  by (rule member_le_sum) simp_all

lemma activeDebt_snoc:
  "activeDebt (ds @ [d]) = activeDebt ds + (if isRepaid d then 0 else amount d)"
  by (simp add: activeDebt_def)

lemma world_inv_set_pool:
  "world_inv w \<Longrightarrow> debt_inv p' \<Longrightarrow> world_inv (set_pool self p' w)"
  by (simp add: world_inv_def set_pool_def)

lemma world_inv_token:
  "world_inv (w\<lparr>stakingToken := tk\<rparr>) = world_inv w"
  by (simp add: world_inv_def)

lemma createPool_inv:
  assumes "createPool sender a region w = Inr w'" and "world_inv w"
  shows "world_inv w'"
proof -
  have "debt_inv (LiquidityPool_constructor region (factory_owner w) a)"
    by (simp add: debt_inv_def LiquidityPool_constructor_def activeDebt_def)
  with assms show ?thesis
    by (auto simp: createPool_def world_inv_def split: if_splits)
qed

lemma executeOriginalFallbackPay_inv:
  assumes ok: "executeOriginalFallbackPay self sender m amt w = Inr w'" and inv: "world_inv w"
  shows "world_inv w'"
proof -
  from ok obtain p p' tk d where p: "liquidityPools w self = Some p"
    and w': "w' = set_pool self p' (w\<lparr>stakingToken := tk\<rparr>)"
    and ud: "userDebts p' = (userDebts p)(sender := userDebts p sender @ [d])"
    and d: "\<not> isRepaid d" "amount d = amt"
    and td: "totalDebt p' = totalDebt p + amt" "totalDebt p + amt \<le> MAX_UINT256"
    by (auto simp: executeOriginalFallbackPay_def Let_def split: option.splits if_splits sum.splits)
  from inv p have pinv: "(\<Sum>u\<in>UNIV. activeDebt (userDebts p u)) = totalDebt p"
    by (simp add: world_inv_def debt_inv_def)
  have "(\<Sum>u\<in>UNIV. activeDebt (userDebts p' u)) + activeDebt (userDebts p sender)
          = (\<Sum>u\<in>UNIV. activeDebt (userDebts p u)) + activeDebt (userDebts p sender @ [d])"
    unfolding ud by (rule sum_activeDebt_upd)
  with d have "(\<Sum>u\<in>UNIV. activeDebt (userDebts p' u)) = (\<Sum>u\<in>UNIV. activeDebt (userDebts p u)) + amt"
    by (simp add: activeDebt_snoc)
  with pinv have "(\<Sum>u\<in>UNIV. activeDebt (userDebts p' u)) = totalDebt p + amt" by linarith
  with td have "debt_inv p'" unfolding debt_inv_def by simp
  with inv show ?thesis unfolding w' by (intro world_inv_set_pool) (simp add: world_inv_token)
qed

lemma repayDebt_inv:
  assumes ok: "repayDebt self sender i a w = Inr w'" and inv: "world_inv w"
  shows "world_inv w'"
proof -
  from ok obtain p where pool: "liquidityPools w self = Some p"
    by (cases "liquidityPools w self") (simp_all add: repayDebt_def)
  let ?ds = "userDebts p sender"
  let ?d = "?ds ! i"
  let ?d' = "if a = amount ?d then ?d\<lparr>isRepaid := True\<rparr> else ?d\<lparr>amount := amount ?d - a\<rparr>"
  from ok pool have c1: "status p = ACTIVE"
    by (simp add: repayDebt_def split: if_splits)
  from ok pool c1 have c2: "0 < a"
    by (simp add: repayDebt_def split: if_splits)
  from ok pool c1 c2 have c3: "i < length ?ds"
    by (simp add: repayDebt_def split: if_splits)
  from ok pool c1 c2 c3 have c4: "\<not> isRepaid ?d"
    by (simp add: repayDebt_def Let_def split: if_splits)
  from ok pool c1 c2 c3 c4 have c5: "a \<le> amount ?d"
    by (simp add: repayDebt_def Let_def split: if_splits)
  from ok pool c1 c2 c3 c4 c5 obtain tk where
    tk: "tk_transferFrom self sender self a (stakingToken w) = Inr tk"
    by (cases "tk_transferFrom self sender self a (stakingToken w)")
       (simp_all add: repayDebt_def Let_def)
  from ok pool c1 c2 c3 c4 c5 tk have c6: "a \<le> totalDebt p"
    by (simp add: repayDebt_def Let_def split: if_splits)
  from ok pool c1 c2 c3 c4 c5 tk c6 have c7: "activeDebt (?ds[i := ?d']) \<le> MAX_UINT256"
    by (simp add: repayDebt_def Let_def activeDebtLoop_0 split: if_splits)
  define p' where "p' = p\<lparr>userDebts := (userDebts p)(sender := ?ds[i := ?d']),
                  totalDebt := totalDebt p - a,
                  debtRelatedUnstakeTimelock :=
                    (if activeDebt (?ds[i := ?d']) = 0 then (debtRelatedUnstakeTimelock p)(sender := 0)
                     else debtRelatedUnstakeTimelock p)\<rparr>"
  from ok pool c1 c2 c3 c4 c5 tk c6 c7 have
    w': "w' = set_pool self p' (w\<lparr>stakingToken := tk\<rparr>)"
    by (simp add: repayDebt_def Let_def activeDebtLoop_0 p'_def)
  from inv pool have pinv: "(\<Sum>u\<in>UNIV. activeDebt (userDebts p u)) = totalDebt p"
    and bound: "totalDebt p \<le> MAX_UINT256"
    by (simp_all add: world_inv_def debt_inv_def)
  have "activeDebt (?ds[i := ?d']) + (if isRepaid ?d then 0 else amount ?d)
          = activeDebt ?ds + (if isRepaid ?d' then 0 else amount ?d')"
    using c3 by (rule activeDebt_update)
  with c4 c5 have act: "activeDebt (?ds[i := ?d']) + a = activeDebt ?ds"
    by (simp split: if_splits)
  have "(\<Sum>u\<in>UNIV. activeDebt (((userDebts p)(sender := ?ds[i := ?d'])) u)) + activeDebt ?ds
          = (\<Sum>u\<in>UNIV. activeDebt (userDebts p u)) + activeDebt (?ds[i := ?d'])"
    by (rule sum_activeDebt_upd)
  with act have "(\<Sum>u\<in>UNIV. activeDebt (((userDebts p)(sender := ?ds[i := ?d'])) u)) + a
                   = (\<Sum>u\<in>UNIV. activeDebt (userDebts p u))"
    by linarith
  then have s: "(\<Sum>u\<in>UNIV. activeDebt (((userDebts p)(sender := ?ds[i := ?d'])) u))
                  = totalDebt p - a"
    using pinv by linarith
  have ud': "userDebts p' = (userDebts p)(sender := ?ds[i := ?d'])"
    and td': "totalDebt p' = totalDebt p - a"
    by (simp_all add: p'_def)
  have "debt_inv p'"
    unfolding debt_inv_def ud' td' using s bound by (intro conjI) linarith+
  with inv show ?thesis unfolding w' by (intro world_inv_set_pool) (simp add: world_inv_token)
qed

lemma fallbackPay_settle_inv:
  assumes ok: "fallbackPay_settle self sender m amt tot a w = Inr w'" and inv: "world_inv w"
  shows "world_inv w'"
proof -
  from ok obtain f w2 where
    ph2: "(if a < amt then addLiquidityFromNewPools self sender amt a w else Inr (a, w)) = Inr (f, w2)"
    and ex: "executeOriginalFallbackPay self sender m amt w2 = Inr w'"
    by (auto simp: fallbackPay_settle_def split: sum.splits prod.splits if_splits)
  from ph2 have "debts_of w2 = debts_of w"
    by (auto simp: addLiquidityFromNewPools_def split: if_splits dest: addLiquidityLoop_frame)
  with inv have "world_inv w2" by (rule world_inv_frame [rotated])
  with ex show ?thesis by (rule executeOriginalFallbackPay_inv)
qed

lemma fallbackPay_inv:
  assumes ok: "fallbackPay self sender m amt w = Inr w'" and inv: "world_inv w"
  shows "world_inv w'"
proof -
  from ok obtain p tot c where pool: "liquidityPools w self = Some p"
    and r: "(if c \<ge> amt \<and> totalLiquidityStaked p \<ge> amt
             then executeOriginalFallbackPay self sender m amt w
             else (case (if totalLiquidityStaked p < amt
                         then redistributeFundsFromPools self sender amt c w
                         else Inr (c, w)) of
                     Inl e \<Rightarrow> Inl e
                   | Inr (a, w1) \<Rightarrow> fallbackPay_settle self sender m amt tot a w1)) = Inr w'"
    by (auto simp: fallbackPay_def Let_def split: option.splits if_splits sum.splits)
  show ?thesis
  proof (cases "c \<ge> amt \<and> totalLiquidityStaked p \<ge> amt")
    case True
    with r have "executeOriginalFallbackPay self sender m amt w = Inr w'" by simp
    then show ?thesis using inv by (rule executeOriginalFallbackPay_inv)
  next
    case False
    with r obtain a w1 where
      ph1: "(if totalLiquidityStaked p < amt
             then redistributeFundsFromPools self sender amt c w else Inr (c, w)) = Inr (a, w1)"
      and st: "fallbackPay_settle self sender m amt tot a w1 = Inr w'"
      by (auto split: sum.splits prod.splits)
    from ph1 have "debts_of w1 = debts_of w"
      by (auto simp: redistributeFundsFromPools_def split: if_splits dest: redistributeLoop_frame)
    with inv have "world_inv w1" by (rule world_inv_frame [rotated])
    with st show ?thesis by (rule fallbackPay_settle_inv)
  qed
qed


lemma exec_inv:
  assumes "exec c w = Inr w'" and "world_inv w"
  shows "world_inv w'"
proof (cases c)
  case (Stake self sender amt)
  with assms show ?thesis by (auto dest: stake_frame intro: world_inv_frame)
next
  case (Unstake self sender lp)
  with assms show ?thesis by (auto dest: unstake_frame intro: world_inv_frame)
next
  case (FallbackPay self sender m amt)
  with assms show ?thesis by (auto intro: fallbackPay_inv)
next
  case (RepayDebt self sender i a)
  with assms show ?thesis by (auto intro: repayDebt_inv)
next
  case (ToggleStatus self sender)
  with assms show ?thesis by (auto dest: toggleStatus_frame intro: world_inv_frame)
next
  case (SetStatus self sender st)
  with assms show ?thesis by (auto dest: setStatus_frame intro: world_inv_frame)
next
  case (SetApy self sender bp)
  with assms show ?thesis by (auto dest: setApy_frame intro: world_inv_frame)
next
  case (AddRewardsToPot self sender amt)
  with assms show ?thesis by (auto dest: addRewardsToPot_frame intro: world_inv_frame)
next
  case (DistributeRewards self sender)
  with assms show ?thesis by (auto dest: distributeRewards_frame intro: world_inv_frame)
next
  case (EmergencyWithdraw self sender)
  with assms show ?thesis by (auto dest: emergencyWithdraw_frame intro: world_inv_frame)
next
  case (TransferLiquidityToPool self sender target usr amt)
  with assms show ?thesis by (auto dest: transferLiquidityToPool_frame intro: world_inv_frame)
next
  case (ContributeLiquidityForPayment self sender target usr amt)
  with assms show ?thesis by (auto dest: contributeLiquidityForPayment_frame intro: world_inv_frame)
next
  case (ReceiveLiquidity self sender amt)
  with assms show ?thesis by (auto dest: receiveLiquidity_frame intro: world_inv_frame)
next
  case (LpTokenCall a lc)
  with assms show ?thesis by (auto dest: lpTokenCall_frame intro: world_inv_frame)
next
  case (CreatePool sender a region)
  with assms show ?thesis by (auto intro: createPool_inv)
next
  case (TransferOwnership sender newOwner)
  with assms show ?thesis by (auto dest: transferOwnership_frame intro: world_inv_frame)
next
  case (TogglePoolStatus sender a)
  with assms show ?thesis by (auto dest: togglePoolStatus_frame intro: world_inv_frame)
next
  case (AddRewardsToPool sender a amt)
  with assms show ?thesis by (auto dest: addRewardsToPool_frame intro: world_inv_frame)
qed

lemma reachable_inv:
  "reachable w \<Longrightarrow> world_inv w"
proof (induction rule: reachable.induct)
  case (reachable_genesis fAddress fOwner tk now)
  show ?case by (simp add: world_inv_def genesis_def)
next
  case (reachable_call w c w')
  then show ?case by (auto intro: exec_inv)
next
  case (reachable_token w tk)
  then show ?case by (simp add: world_inv_token)
next
  case (reachable_time w t)
  then show ?case by (simp add: world_inv_def)
qed

text \<open>
  C10.  In every reachable state, for every pool and every user,
  \<open>getCollateralAvailable\<close> returns a value (the sum of the open debts cannot overflow,
  being at most \<open>totalDebt\<close>): the collateral less the open debt when the collateral is
  the larger, and 0 otherwise.
\<close>

theorem getCollateralAvailable_saturates:
  assumes "reachable w" and "liquidityPools w self = Some p"
  shows "getCollateralAvailable self usr w =
           Inr (if collateralAmount (stakers p usr) > activeDebt (userDebts p usr)
                then collateralAmount (stakers p usr) - activeDebt (userDebts p usr)
                else 0)"
proof -
  from assms have "debt_inv p" by (auto dest: reachable_inv simp: world_inv_def)
  then have "(\<Sum>v\<in>UNIV. activeDebt (userDebts p v)) \<le> MAX_UINT256"
    by (simp add: debt_inv_def)
  with activeDebt_le_sum [of "userDebts p" usr] have "activeDebt (userDebts p usr) \<le> MAX_UINT256"
    by (rule order_trans)
  with assms(2) show ?thesis
    by (simp add: getCollateralAvailable_def activeDebtLoop_0)
qed

lemma reachable_run:
  "reachable w \<Longrightarrow> reachable (run cs w)"
proof (induction cs arbitrary: w)
  case Nil
  then show ?case by simp
next
  case (Cons c cs)
  have "reachable (transact (exec c) w)"
  proof (cases "exec c w")
    case (Inl e)
    with Cons.prems show ?thesis by (simp add: transact_def)
  next
    case (Inr w')
    with Cons.prems have "reachable w'" by (auto intro: reachable_call)
    with Inr show ?thesis by (simp add: transact_def)
  qed
  then show ?case by (simp add: Cons.IH)
qed

text \<open>
  After a payment of 200 against a stake of 1000 the collateral is 160 and the open debt
  200: the available collateral is 0.
\<close>

theorem getCollateralAvailable_saturates_witness:
  "reachable w_overdrawn
   \<and> (\<exists>p. liquidityPools w_overdrawn poolA = Some p
          \<and> collateralAmount (stakers p alice) = 160 \<and> activeDebt (userDebts p alice) = 200)
   \<and> getCollateralAvailable poolA alice w_overdrawn = Inr 0
   \<and> getCollateralAvailable poolA merchant w_overdrawn = Inr 0"
proof -
  have r0: "reachable w0" unfolding w0_def by (rule reachable_genesis)
  have r: "reachable w_overdrawn" unfolding w_overdrawn_def using r0 by (rule reachable_run)
  have "\<exists>p. liquidityPools w_overdrawn poolA = Some p
          \<and> collateralAmount (stakers p alice) = 160 \<and> activeDebt (userDebts p alice) = 200
          \<and> collateralAmount (stakers p merchant) = 0 \<and> activeDebt (userDebts p merchant) = 0"
    by (simp add: w_overdrawn_def activeDebt_def eval_defs)
  then obtain p where p: "liquidityPools w_overdrawn poolA = Some p"
    and v: "collateralAmount (stakers p alice) = 160" "activeDebt (userDebts p alice) = 200"
      "collateralAmount (stakers p merchant) = 0" "activeDebt (userDebts p merchant) = 0"
    by (elim exE conjE)
  from getCollateralAvailable_saturates [OF r p, of alice]
       getCollateralAvailable_saturates [OF r p, of merchant] r p v
  show ?thesis by simp
qed

section \<open>The collateral guard of unstake\<close>









end
